theory Spec2Isabelle
  imports Complex_Main "HOL-Library.Multiset" "HOL-Library.Log_Nat"
begin

section \<open>Mirror list\<close>

text \<open>
  \<^verbatim>\<open>get_ffmpeg_download_urls\<close> branches on \<^verbatim>\<open>platform.system()\<close>; the
  platform string is the argument of the model.
\<close>

definition get_ffmpeg_download_urls :: "string \<Rightarrow> string list" where
  "get_ffmpeg_download_urls system =
     (if system = ''Windows'' then
        [''https://www.gyan.dev/ffmpeg/builds/ffmpeg-release-essentials.zip'',
         ''https://github.com/BtbN/FFmpeg-Builds/releases/download/latest/ffmpeg-master-latest-win64-gpl.zip'',
         ''https://github.com/GyanD/codexffmpeg/releases/download/7.1/ffmpeg-7.1-essentials_build.zip'']
      else if system = ''Darwin'' then
        [''https://evermeet.cx/ffmpeg/ffmpeg-6.0.zip'']
      else
        [''https://johnvansickle.com/ffmpeg/releases/ffmpeg-release-amd64-static.tar.xz''])"

text \<open>\<^verbatim>\<open>return urls[0] if urls else None\<close>\<close>

definition get_ffmpeg_download_url :: "string \<Rightarrow> string option" where
  "get_ffmpeg_download_url system =
     (case get_ffmpeg_download_urls system of [] \<Rightarrow> None | u # _ \<Rightarrow> Some u)"

section \<open>Range partition of the parallel fetcher\<close>

definition MAX_CONNECTIONS :: int where
  "MAX_CONNECTIONS = 32"

definition CHUNK_SIZE :: int where
  "CHUNK_SIZE = 2 * 1024 * 1024"

text \<open>
  \<^verbatim>\<open>for i in range(0, total_size, chunk_size): ranges.append((i, min(i + chunk_size - 1, total_size - 1)))\<close>
  with the loop variable as the first argument. Python's \<^verbatim>\<open>range\<close> with a positive step
  yields \<open>i\<close> while \<open>i < total_size\<close>; the step here is at least \<open>CHUNK_SIZE\<close>.
\<close>

function chunk_ranges_from :: "int \<Rightarrow> int \<Rightarrow> int \<Rightarrow> (int \<times> int) list" where
  "chunk_ranges_from i total_size chunk_size =
     (if i < total_size \<and> 0 < chunk_size
      then (i, min (i + chunk_size - 1) (total_size - 1))
             # chunk_ranges_from (i + chunk_size) total_size chunk_size
      else [])"
  by pat_completeness auto
termination
  by (relation "measure (\<lambda>(i, total_size, chunk_size). nat (total_size - i))") auto

declare chunk_ranges_from.simps [simp del]

definition chunk_ranges :: "int \<Rightarrow> (int \<times> int) list" where
  "chunk_ranges total_size =
     chunk_ranges_from 0 total_size (max CHUNK_SIZE (total_size div MAX_CONNECTIONS))"

section \<open>The FFmpeg folder\<close>

text \<open>
  The installer works below one folder, \<^verbatim>\<open>get_ffmpeg_folder()\<close>, and the code builds every
  path below it with \<^verbatim>\<open>os.path.join\<close> from fixed components. A path is modelled as the list
  of its components below that folder. A regular file carries its size, a directory its
  entries in the order \<^verbatim>\<open>os.listdir\<close> reports them. The folder itself is a finite map from
  entry name to node (its own listing order is never read); a folder that does not exist
  yet answers every query like an empty one, and \<^verbatim>\<open>os.makedirs(ffmpeg_folder, exist_ok=True)\<close>
  runs before any write. \<open>tmp_files\<close> are the names present in the system's temporary
  directory.
\<close>

datatype node = File int | Dir "(string \<times> node) list"

record fs =
  ffmpeg_dir :: "string \<rightharpoonup> node"
  tmp_files :: "string set"

fun node_at :: "node \<Rightarrow> string list \<Rightarrow> node option" where
  "node_at n [] = Some n"
| "node_at (File sz) (c # p) = None"
| "node_at (Dir es) (c # p) = (case map_of es c of None \<Rightarrow> None | Some n \<Rightarrow> node_at n p)"

definition fs_lookup :: "fs \<Rightarrow> string list \<Rightarrow> node option" where
  "fs_lookup s path =
     (case path of
        [] \<Rightarrow> None
      | c # p \<Rightarrow> (case ffmpeg_dir s c of None \<Rightarrow> None | Some n \<Rightarrow> node_at n p))"

definition os_path_exists :: "fs \<Rightarrow> string list \<Rightarrow> bool" where
  "os_path_exists s path = (fs_lookup s path \<noteq> None)"

definition os_path_isfile :: "fs \<Rightarrow> string list \<Rightarrow> bool" where
  "os_path_isfile s path = (case fs_lookup s path of Some (File sz) \<Rightarrow> True | _ \<Rightarrow> False)"

fun is_dir :: "node \<Rightarrow> bool" where
  "is_dir (Dir es) = True"
| "is_dir (File sz) = False"

section \<open>Availability gate\<close>

text \<open>
  \<^verbatim>\<open>get_ffmpeg_executable\<close>: \<^verbatim>\<open>bin/ffmpeg.exe\<close> when \<^verbatim>\<open>platform.system()\<close> is
  \<^verbatim>\<open>"Windows"\<close>, \<^verbatim>\<open>bin/ffmpeg\<close> otherwise.
\<close>

definition get_ffmpeg_executable :: "string \<Rightarrow> string list" where
  "get_ffmpeg_executable system =
     (if system = ''Windows'' then [''bin'', ''ffmpeg.exe''] else [''bin'', ''ffmpeg''])"

text \<open>\<^verbatim>\<open>return os.path.exists(ffmpeg_path) and os.path.isfile(ffmpeg_path)\<close>\<close>

definition is_ffmpeg_available :: "string \<Rightarrow> fs \<Rightarrow> bool" where
  "is_ffmpeg_available system s =
     (let ffmpeg_path = get_ffmpeg_executable system
      in os_path_exists s ffmpeg_path \<and> os_path_isfile s ffmpeg_path)"

section \<open>What one mirror attempt meets\<close>

text \<open>
  Exceptions are values. Only the exceptions that decide a branch of the downloaders are
  kept apart.
\<close>

datatype error =
    ValueError | OSError | OverflowError | TimeoutError | BadZipFile | NotADirectoryError
  | FileNotFoundError | UnboundLocalError | URLError

datatype outcome = Raises error | Done

text \<open>
  How the body of one iteration of a mirror loop ends: \<open>Skipped\<close> by the \<^verbatim>\<open>continue\<close>
  before any file is written, \<open>Failed\<close> in the handler of the iteration, \<open>SizeMismatch\<close>
  and \<open>ExitFailure\<close> by falling through a failed check, \<open>Installed\<close> by
  \<^verbatim>\<open>return True\<close>.
\<close>

datatype attempt_result = Skipped | Failed error | SizeMismatch | ExitFailure | Installed

text \<open>
  \<^verbatim>\<open>int(response.headers.get('Content-Length', 0))\<close>: the header is absent (the default 0
  is used), present with text that \<^verbatim>\<open>int\<close> rejects (\<^verbatim>\<open>ValueError\<close>), or present with an
  integer, which may be negative: \<^verbatim>\<open>int\<close> accepts a sign.
\<close>

datatype header = Absent | Malformed | Length int

fun parse_content_length :: "header \<Rightarrow> int option" where
  "parse_content_length Absent = Some 0"
| "parse_content_length Malformed = None"
| "parse_content_length (Length n) = Some n"

text \<open>
  One call of \<^verbatim>\<open>response.readinto(buffer)\<close>: it raises, or returns the number of bytes
  read, 0 at the end of the body.
\<close>

datatype read_event = ReadError | Chunk nat

text \<open>
  Everything outside the program that one attempt on one mirror depends on: the network,
  the clock, the operating system and the archive decoder.
  \<^item> \<open>urlopen_raises\<close>: the first \<^verbatim>\<open>urlopen\<close> fails.
  \<^item> \<open>content_length\<close>: the header of the response.
  \<^item> \<open>file_refused n\<close>: the operating system refuses a file of \<open>n\<close> bytes (the size limit
    of the file system, no space left): \<^verbatim>\<open>f.seek(n - 1); f.write(b'\0')\<close> raises
    \<^verbatim>\<open>OSError\<close>.
  \<^item> \<open>map_refused n\<close>: \<^verbatim>\<open>mmap.mmap(f.fileno(), 0)\<close> raises on a file of \<open>n\<close> bytes (no
    address space for it).
  \<^item> \<open>chunk_fetch start end\<close>: the ranged request \<^verbatim>\<open>bytes=start-end\<close> raises (\<open>None\<close>) or
    returns a body of that many bytes. The server decides the length, not the request.
  \<^item> \<open>completion_order\<close>: the order in which \<^verbatim>\<open>as_completed\<close> yields the futures.
  \<^item> \<open>timeout_after\<close>: \<open>Some k\<close> when \<^verbatim>\<open>as_completed(futures, timeout=300)\<close> raises after
    yielding \<open>k\<close> futures, fewer than there are.
  \<^item> \<open>tick k\<close>: at the \<open>k\<close>-th pass through a progress block, both clock conditions hold
    (enough time since the last update, and \<^verbatim>\<open>elapsed > 0.1\<close>).
  \<^item> \<open>temp_name\<close>: the name \<^verbatim>\<open>tempfile.NamedTemporaryFile\<close> picks.
  \<^item> \<open>reads k\<close>: the \<open>k\<close>-th call of \<^verbatim>\<open>readinto\<close> on the response.
  \<^item> \<open>move_raises\<close>: \<^verbatim>\<open>shutil.move(temp_filename, filename)\<close> fails.
  \<^item> \<open>extraction\<close>: \<open>None\<close> when \<^verbatim>\<open>zipfile.ZipFile(filename)\<close> or \<^verbatim>\<open>extractall\<close> raises;
    otherwise what \<^verbatim>\<open>temp_extract\<close> holds after \<^verbatim>\<open>extractall\<close>, in the order in which
    \<^verbatim>\<open>os.listdir\<close> reports it: nothing, for an archive without members. The ZIP format
    is not decoded here, and what a failed extraction leaves behind is not recorded.
  \<^item> \<open>aria2_run\<close>: how the external downloader process ends.
\<close>

datatype aria2_exit = PopenRaises | Exits int "int option"

record attempt_env =
  urlopen_raises :: bool
  content_length :: header
  file_refused :: "int \<Rightarrow> bool"
  map_refused :: "int \<Rightarrow> bool"
  chunk_fetch :: "int \<Rightarrow> int \<Rightarrow> nat option"
  completion_order :: "(int \<times> int) list \<Rightarrow> (int \<times> int) list"
  timeout_after :: "nat option"
  tick :: "nat \<Rightarrow> bool"
  temp_name :: string
  reads :: "nat \<Rightarrow> read_event"
  move_raises :: bool
  extraction :: "(string \<times> node) list option"
  aria2_run :: "aria2_exit option"

section \<open>Floating-point arithmetic of the progress figures\<close>

text \<open>
  The progress figures are computed in Python floats, IEEE 754 binary64: a significand of
  53 bits, exponents from \<open>-1022\<close> to \<open>1023\<close>, gradual underflow, results rounded to the
  nearest float and to the even significand at a tie. A finite float is modelled by the
  rational number it denotes.

  \<open>round_half_even\<close>: the integer nearest to \<open>m\<close>, the even one at a tie.
\<close>

definition round_half_even :: "rat \<Rightarrow> int" where
  "round_half_even m =
     (let f = \<lfloor>m\<rfloor>; r = m - of_int f
      in if r < 1 / 2 then f else if 1 / 2 < r then f + 1 else if even f then f else f + 1)"

text \<open>
  \<open>flog2 x\<close>, for \<open>x > 0\<close>: the exponent \<open>e\<close> with \<open>2 powi e \<le> x < 2 powi (e + 1)\<close>, from the bit length of
  \<open>\<lfloor>x\<rfloor>\<close> for \<open>x \<ge> 1\<close> and of \<open>\<lceil>1 / x\<rceil> - 1\<close> below.
\<close>

definition flog2 :: "rat \<Rightarrow> int" where
  "flog2 x = (if 1 \<le> x then bitlen \<lfloor>x\<rfloor> - 1 else - bitlen (\<lceil>1 / x\<rceil> - 1))"

text \<open>
  \<open>to_double x\<close>: the float nearest to the exact value \<open>x\<close>. The spacing of the floats around
  \<open>x\<close> is \<open>2 powi (e - 52)\<close> with \<open>e\<close> the exponent of \<open>x\<close>, not below \<open>-1022\<close>. \<open>None\<close>: the rounded
  value is beyond the largest float (Python raises \<^verbatim>\<open>OverflowError\<close>, at once or when \<^verbatim>\<open>int\<close>
  meets the infinity).
\<close>

definition to_double :: "rat \<Rightarrow> rat option" where
  "to_double x =
     (if x = 0 then Some 0
      else
        (let a = \<bar>x\<bar>;
             e = max (flog2 a) (- 1022);
             ulp = 2 powi (e - 52);
             y = of_int (round_half_even (a / ulp)) * ulp
         in if 2 powi 1024 \<le> y then None else Some (sgn x * y)))"

text \<open>
  \<^verbatim>\<open>a / b\<close> on two Python integers: \<^verbatim>\<open>ZeroDivisionError\<close> for \<open>b = 0\<close>, otherwise the float nearest
  to the exact quotient, \<^verbatim>\<open>OverflowError\<close> when that is out of range.
\<close>

definition int_truediv :: "int \<Rightarrow> int \<Rightarrow> rat option" where
  "int_truediv a b = (if b = 0 then None else to_double (of_int a / of_int b))"

section \<open>Progress messages\<close>

text \<open>
  A progress message is modelled by the integers formatted into it: with a known total,
  the percentage, the bytes so far and the total; in the streaming loop for an unknown
  total, the bytes so far only. The speed figures and the fixed status texts are left
  out. The callback is either absent or records the message; a callback that raises is
  outside the model.

  \<^verbatim>\<open>progress = int((completed_size / total_size) * 100)\<close>: the quotient is rounded to a float,
  the product with 100 is rounded again, and \<^verbatim>\<open>int\<close> truncates towards zero. \<open>None\<close>: the
  expression raises.
\<close>

datatype message = Progress int int int | Streamed int

definition py_int :: "rat \<Rightarrow> int" where
  "py_int x = (if 0 \<le> x then \<lfloor>x\<rfloor> else \<lceil>x\<rceil>)"

definition progress_percent :: "int \<Rightarrow> int \<Rightarrow> int option" where
  "progress_percent bytes_so_far total_size =
     (case int_truediv bytes_so_far total_size of
        None \<Rightarrow> None
      | Some q \<Rightarrow>
          (case to_double (q * 100) of
             None \<Rightarrow> None
           | Some p \<Rightarrow> Some (py_int p)))"

text \<open>
  The figures of one message with a known total: \<^verbatim>\<open>progress\<close>, then
  \<^verbatim>\<open>mb_downloaded = completed_size / (1024 * 1024)\<close> and \<^verbatim>\<open>mb_total = total_size / (1024 * 1024)\<close>.
  \<open>None\<close>: one of them raises, and no message is sent.
\<close>

definition progress_message :: "int \<Rightarrow> int \<Rightarrow> message option" where
  "progress_message bytes_so_far total_size =
     (case progress_percent bytes_so_far total_size of
        None \<Rightarrow> None
      | Some p \<Rightarrow>
          if int_truediv bytes_so_far (1024 * 1024) = None
             \<or> int_truediv total_size (1024 * 1024) = None
          then None
          else Some (Progress p bytes_so_far total_size))"

text \<open>
  The progress block of the two loops with a known total (lines 684 to 703 and 1139 to
  1153), at pass \<open>k\<close>. It stands inside the \<^verbatim>\<open>try\<close> of the loop body, whose handler goes on
  to the next pass: figures that raise send no message and change nothing else.
\<close>

definition progress_block ::
  "bool \<Rightarrow> attempt_env \<Rightarrow> nat \<Rightarrow> int \<Rightarrow> int \<Rightarrow> message list \<Rightarrow> message list"
where
  "progress_block cb env k bytes_so_far total_size msgs =
     (if cb \<and> tick env k
      then (case progress_message bytes_so_far total_size of
              None \<Rightarrow> msgs
            | Some m \<Rightarrow> msgs @ [m])
      else msgs)"

text \<open>
  The progress block of the streaming loop for an unknown total (lines 1193 to 1203):
  \<^verbatim>\<open>mb_downloaded = downloaded / (1024 * 1024)\<close> is its only figure taken from the bytes.
\<close>

definition streamed_block :: "bool \<Rightarrow> attempt_env \<Rightarrow> nat \<Rightarrow> int \<Rightarrow> message list \<Rightarrow> message list" where
  "streamed_block cb env k downloaded msgs =
     (if cb \<and> tick env k
      then (case int_truediv downloaded (1024 * 1024) of
              None \<Rightarrow> msgs
            | Some mb_downloaded \<Rightarrow> msgs @ [Streamed downloaded])
      else msgs)"

fun percent_of :: "message \<Rightarrow> int option" where
  "percent_of (Progress p b t) = Some p"
| "percent_of (Streamed b) = None"

text \<open>A message is in order when the percentage it shows, if any, lies between 0 and 100.\<close>

definition percent_ok :: "message \<Rightarrow> bool" where
  "percent_ok m = (case percent_of m of None \<Rightarrow> True | Some p \<Rightarrow> 0 \<le> p \<and> p \<le> 100)"

section \<open>Installing from the downloaded archive\<close>

definition put_entry :: "string \<Rightarrow> node \<Rightarrow> fs \<Rightarrow> fs" where
  "put_entry name n s = s\<lparr>ffmpeg_dir := (ffmpeg_dir s)(name \<mapsto> n)\<rparr>"

definition del_entry :: "string \<Rightarrow> fs \<Rightarrow> fs" where
  "del_entry name s = s\<lparr>ffmpeg_dir := (ffmpeg_dir s)(name := None)\<rparr>"

text \<open>
  \<^verbatim>\<open>[f for f in os.listdir(temp_extract) if os.path.isdir(os.path.join(temp_extract, f))]\<close>,
  each name kept with its node.
\<close>

definition extracted_folders :: "(string \<times> node) list \<Rightarrow> (string \<times> node) list" where
  "extracted_folders listing = filter (\<lambda>(f, n). is_dir n) listing"

fun without_child :: "string \<Rightarrow> node \<Rightarrow> node" where
  "without_child c (File sz) = File sz"
| "without_child c (Dir es) = Dir (filter (\<lambda>(k, n). k \<noteq> c) es)"

definition temp_after_move :: "string \<Rightarrow> (string \<times> node) list \<Rightarrow> node" where
  "temp_after_move f listing =
     Dir (map (\<lambda>(k, n). if k = f then (k, without_child ''bin'' n) else (k, n)) listing)"

text \<open>
  The block that \<^verbatim>\<open>download_with_ultra_speed\<close> (lines 737 to 747) and
  \<^verbatim>\<open>download_with_requests_simple\<close> (lines 1238 to 1248) share word for word, run on a
  state whose \<^verbatim>\<open>temp\<close> folder holds \<open>listing\<close>:
  \<^verbatim>\<open>
  if extracted_folders:
      source_folder = os.path.join(temp_extract, extracted_folders[0])
      bin_source = os.path.join(source_folder, "bin")
      bin_target = os.path.join(ffmpeg_folder, "bin")
      if os.path.exists(bin_source):
          if os.path.exists(bin_target):
              shutil.rmtree(bin_target)
          shutil.move(bin_source, bin_target)
  \<close>
  Neither \<^verbatim>\<open>if\<close> has an \<^verbatim>\<open>else\<close>. \<^verbatim>\<open>shutil.rmtree\<close> raises on a regular file.
\<close>

definition move_bin :: "(string \<times> node) list \<Rightarrow> fs \<Rightarrow> outcome \<times> fs" where
  "move_bin listing s =
     (case extracted_folders listing of
        [] \<Rightarrow> (Done, s)
      | (f, source_folder) # _ \<Rightarrow>
          (case node_at source_folder [''bin''] of
             None \<Rightarrow> (Done, s)
           | Some bin_source \<Rightarrow>
               (case ffmpeg_dir s ''bin'' of
                  Some (File sz) \<Rightarrow> (Raises NotADirectoryError, s)
                | _ \<Rightarrow> (Done, put_entry ''bin'' bin_source
                                (put_entry ''temp'' (temp_after_move f listing) s)))))"

text \<open>
  \<^verbatim>\<open>zip_ref.extractall(temp_extract)\<close> followed by \<^verbatim>\<open>os.listdir(temp_extract)\<close>, which the three
  installers share. \<^verbatim>\<open>extractall\<close> creates \<^verbatim>\<open>temp_extract\<close> only on the way to a member: after
  an archive without members the folder exists only if it did before, and \<^verbatim>\<open>os.listdir\<close>
  raises \<^verbatim>\<open>FileNotFoundError\<close> if it does not. A regular file in the place of the folder
  makes one of the two calls raise.
\<close>

definition extract_all :: "attempt_env \<Rightarrow> fs \<Rightarrow> error + ((string \<times> node) list \<times> fs)" where
  "extract_all env s =
     (case extraction env of
        None \<Rightarrow> Inl BadZipFile
      | Some listing \<Rightarrow>
          (case ffmpeg_dir s ''temp'' of
             Some (File sz) \<Rightarrow> Inl NotADirectoryError
           | Some (Dir es) \<Rightarrow> Inr (listing, put_entry ''temp'' (Dir listing) s)
           | None \<Rightarrow>
               if listing = [] then Inl FileNotFoundError
               else Inr (listing, put_entry ''temp'' (Dir listing) s)))"

section \<open>Parallel range fetcher\<close>

text \<open>
  \<^verbatim>\<open>f.seek(total_size - 1); f.write(b'\0')\<close> on a file just opened with \<^verbatim>\<open>'wb'\<close>, which
  the two fetchers share (lines 640 to 642 and 1109 to 1111). \<^verbatim>\<open>seek\<close> raises \<^verbatim>\<open>OSError\<close>
  for a negative offset and \<^verbatim>\<open>ValueError\<close> for one that does not fit the 64-bit offset
  type; a file of \<open>2 ^ 63\<close> bytes is beyond that type, and any other size may be refused by
  the operating system.
\<close>

definition seek_and_write :: "attempt_env \<Rightarrow> int \<Rightarrow> outcome" where
  "seek_and_write env total_size =
     (if total_size - 1 < 0 then Raises OSError
      else if 2 ^ 63 \<le> total_size - 1 then Raises ValueError
      else if total_size = 2 ^ 63 \<or> file_refused env total_size then Raises OSError
      else Done)"

text \<open>
  \<^verbatim>\<open>with open(filename, 'wb') as f: f.seek(total_size - 1); f.write(b'\0')\<close>.
  Opening truncates; a pre-allocation that raises leaves the empty file.
\<close>

definition preallocate :: "attempt_env \<Rightarrow> int \<Rightarrow> fs \<Rightarrow> outcome \<times> fs" where
  "preallocate env total_size s =
     (case seek_and_write env total_size of
        Raises e \<Rightarrow> (Raises e, put_entry ''ffmpeg_temp.zip'' (File 0) s)
      | Done \<Rightarrow> (Done, put_entry ''ffmpeg_temp.zip'' (File total_size) s))"

text \<open>
  \<^verbatim>\<open>download_chunk\<close> returns 0 when the request raises and the length of the body
  otherwise; only a body that arrived is stored in \<^verbatim>\<open>downloaded_chunks[start]\<close>.
\<close>

definition download_chunk :: "attempt_env \<Rightarrow> int \<times> int \<Rightarrow> int" where
  "download_chunk env chunk_info =
     (case chunk_fetch env (fst chunk_info) (snd chunk_info) of
        None \<Rightarrow> 0
      | Some n \<Rightarrow> int n)"

definition downloaded_chunks :: "attempt_env \<Rightarrow> (int \<times> int) list \<Rightarrow> (int \<times> nat) list" where
  "downloaded_chunks env ranges =
     concat (map (\<lambda>(start, stop).
                    case chunk_fetch env start stop of None \<Rightarrow> [] | Some n \<Rightarrow> [(start, n)])
                 ranges)"

text \<open>
  The loop over \<^verbatim>\<open>as_completed(futures)\<close>: the results arrive as a list, \<open>k\<close> counts the
  passes.
\<close>

fun as_completed_loop ::
  "bool \<Rightarrow> attempt_env \<Rightarrow> int \<Rightarrow> nat \<Rightarrow> int list \<Rightarrow> int \<Rightarrow> message list \<Rightarrow> int \<times> message list"
where
  "as_completed_loop cb env total_size k [] completed_size msgs = (completed_size, msgs)"
| "as_completed_loop cb env total_size k (chunk_size_downloaded # rest) completed_size msgs =
     as_completed_loop cb env total_size (Suc k) rest (completed_size + chunk_size_downloaded)
       (progress_block cb env k (completed_size + chunk_size_downloaded) total_size msgs)"

text \<open>
  \<^verbatim>\<open>f.seek(start_pos); f.write(data)\<close> on a file of \<open>sz\<close> bytes: the size afterwards.
\<close>

definition write_at :: "int \<Rightarrow> int \<Rightarrow> int \<Rightarrow> int" where
  "write_at sz start_pos n = (if n = 0 then sz else max sz (start_pos + n))"

text \<open>
  \<^verbatim>\<open>for start_pos in sorted(downloaded_chunks.keys()): f.seek(start_pos); f.write(...)\<close>
\<close>

definition assemble :: "(int \<times> nat) list \<Rightarrow> fs \<Rightarrow> fs" where
  "assemble chunks s =
     (case ffmpeg_dir s ''ffmpeg_temp.zip'' of
        Some (File sz) \<Rightarrow>
          put_entry ''ffmpeg_temp.zip''
            (File (foldl (\<lambda>sz' (start_pos, n). write_at sz' start_pos (int n)) sz
                         (sort_key fst chunks))) s
      | _ \<Rightarrow> s)"

definition os_path_getsize :: "fs \<Rightarrow> string list \<Rightarrow> int option" where
  "os_path_getsize s path = (case fs_lookup s path of Some (File sz) \<Rightarrow> Some sz | _ \<Rightarrow> None)"

text \<open>
  Lines 732 to 756: extraction, the shared block, the cleanup whose errors are ignored,
  \<^verbatim>\<open>return True\<close>.
\<close>

definition ultra_install :: "attempt_env \<Rightarrow> fs \<Rightarrow> attempt_result \<times> fs" where
  "ultra_install env s =
     (case extract_all env s of
        Inl e \<Rightarrow> (Failed e, s)
      | Inr (listing, s1) \<Rightarrow>
          (case move_bin listing s1 of
             (Raises e, s') \<Rightarrow> (Failed e, s')
           | (Done, s') \<Rightarrow> (Installed, del_entry ''temp'' (del_entry ''ffmpeg_temp.zip'' s'))))"

text \<open>
  The body of \<^verbatim>\<open>for url_index, url in enumerate(urls)\<close>, lines 610 to 760. The timeout of
  \<^verbatim>\<open>as_completed\<close> can only strike while a future is still to be yielded.
\<close>

definition ultra_attempt ::
  "bool \<Rightarrow> attempt_env \<Rightarrow> fs \<Rightarrow> message list \<Rightarrow> attempt_result \<times> fs \<times> message list"
where
  "ultra_attempt cb env s msgs =
     (if urlopen_raises env then (Skipped, s, msgs)
      else
        (case parse_content_length (content_length env) of
           None \<Rightarrow> (Skipped, s, msgs)
         | Some total_size \<Rightarrow>
             if total_size = 0 then (Skipped, s, msgs)
             else
               (let ranges = chunk_ranges total_size in
                case preallocate env total_size s of
                  (Raises e, s1) \<Rightarrow> (Failed e, s1, msgs)
                | (Done, s1) \<Rightarrow>
                    (let results = map (download_chunk env) (completion_order env ranges);
                         timed_out = (case timeout_after env of
                                        None \<Rightarrow> None
                                      | Some k \<Rightarrow> if k < length results then Some k else None)
                     in
                     case timed_out of
                       Some k \<Rightarrow>
                         (Failed TimeoutError, s1,
                          snd (as_completed_loop cb env total_size 0 (take k results) 0 msgs))
                     | None \<Rightarrow>
                         (let msgs' = snd (as_completed_loop cb env total_size 0 results 0 msgs);
                              s2 = assemble (downloaded_chunks env ranges) s1
                          in if os_path_getsize s2 [''ffmpeg_temp.zip''] = Some total_size
                             then (case ultra_install env s2 of (r, s3) \<Rightarrow> (r, s3, msgs'))
                             else (SizeMismatch, s2, msgs'))))))"

fun ultra_mirrors ::
  "bool \<Rightarrow> (string \<Rightarrow> attempt_env) \<Rightarrow> string list \<Rightarrow> fs \<Rightarrow> message list \<Rightarrow> bool \<times> fs \<times> message list"
where
  "ultra_mirrors cb net [] s msgs = (False, s, msgs)"
| "ultra_mirrors cb net (url # urls) s msgs =
     (case ultra_attempt cb (net url) s msgs of
        (Installed, s', msgs') \<Rightarrow> (True, s', msgs')
      | (_, s', msgs') \<Rightarrow> ultra_mirrors cb net urls s' msgs')"

section \<open>Streaming fetcher\<close>

text \<open>
  The loop of the branch \<^verbatim>\<open>if total_size > 0\<close> (lines 1126 to 1158), over the file
  pre-allocated and memory-mapped at \<open>total_size\<close> bytes. Its state is the number \<open>k\<close> of
  calls of \<^verbatim>\<open>readinto\<close> made so far, \<^verbatim>\<open>downloaded\<close>, \<^verbatim>\<open>position\<close> and the messages sent.

  \<open>mmap_pass\<close> is one test of \<^verbatim>\<open>while downloaded < total_size\<close> followed by the loop body;
  \<open>None\<close> means that the loop is left, by the test or by \<^verbatim>\<open>break\<close>. The whole body sits in
  \<^verbatim>\<open>try: ... except Exception: continue\<close>: a read that raises, and a slice assignment that
  does not fit the map (\<^verbatim>\<open>IndexError\<close>: the slice is cut at the end of the map), both go
  on to the next pass with the counters unchanged.
\<close>

type_synonym mmap_state = "nat \<times> int \<times> int \<times> message list"

definition mmap_pass :: "bool \<Rightarrow> attempt_env \<Rightarrow> int \<Rightarrow> mmap_state \<Rightarrow> mmap_state option" where
  "mmap_pass cb env total_size st =
     (case st of (k, downloaded, position, msgs) \<Rightarrow>
        if downloaded < total_size then
          (case reads env k of
             ReadError \<Rightarrow> Some (Suc k, downloaded, position, msgs)
           | Chunk bytes_read \<Rightarrow>
               if bytes_read = 0 then None
               else if total_size < position + int bytes_read
                 then Some (Suc k, downloaded, position, msgs)
               else Some (Suc k, downloaded + int bytes_read, position + int bytes_read,
                          progress_block cb env k (downloaded + int bytes_read) total_size msgs))
        else None)"

text \<open>The loop may run for ever, so its result is an option: the state in which it is left.\<close>

partial_function (option) mmap_loop ::
  "bool \<Rightarrow> attempt_env \<Rightarrow> int \<Rightarrow> mmap_state \<Rightarrow> mmap_state option"
where
  "mmap_loop cb env total_size st =
     (case mmap_pass cb env total_size st of
        None \<Rightarrow> Some st
      | Some st' \<Rightarrow> mmap_loop cb env total_size st')"

declare mmap_loop.simps [code]

text \<open>The state of the loop after \<open>n\<close> passes, or when it was left if that came first.\<close>

primrec mmap_passes :: "bool \<Rightarrow> attempt_env \<Rightarrow> int \<Rightarrow> nat \<Rightarrow> mmap_state \<Rightarrow> mmap_state" where
  "mmap_passes cb env total_size 0 st = st"
| "mmap_passes cb env total_size (Suc n) st =
     (case mmap_pass cb env total_size st of
        None \<Rightarrow> st
      | Some st' \<Rightarrow> mmap_passes cb env total_size n st')"

text \<open>
  The loop of the \<^verbatim>\<open>else\<close> branch (lines 1176 to 1207), \<^verbatim>\<open>while True\<close> with the same
  \<^verbatim>\<open>try: ... except Exception: continue\<close> around its body. Its state is the number \<open>k\<close> of
  calls of \<^verbatim>\<open>readinto\<close> made so far, \<^verbatim>\<open>downloaded\<close> and the messages sent; what it buffers
  and writes adds up to \<^verbatim>\<open>downloaded\<close> bytes, the writes to the temporary file being
  taken to succeed. \<open>None\<close> is the \<^verbatim>\<open>break\<close>.
\<close>

type_synonym streaming_state = "nat \<times> int \<times> message list"

definition streaming_pass :: "bool \<Rightarrow> attempt_env \<Rightarrow> streaming_state \<Rightarrow> streaming_state option" where
  "streaming_pass cb env st =
     (case st of (k, downloaded, msgs) \<Rightarrow>
        (case reads env k of
           ReadError \<Rightarrow> Some (Suc k, downloaded, msgs)
         | Chunk bytes_read \<Rightarrow>
             if bytes_read = 0 then None
             else Some (Suc k, downloaded + int bytes_read,
                        streamed_block cb env k (downloaded + int bytes_read) msgs)))"

partial_function (option) streaming_loop ::
  "bool \<Rightarrow> attempt_env \<Rightarrow> streaming_state \<Rightarrow> streaming_state option"
where
  "streaming_loop cb env st =
     (case streaming_pass cb env st of
        None \<Rightarrow> Some st
      | Some st' \<Rightarrow> streaming_loop cb env st')"

declare streaming_loop.simps [code]

text \<open>The state of this loop after \<open>n\<close> passes, or when it was left if that came first.\<close>

primrec streaming_passes :: "bool \<Rightarrow> attempt_env \<Rightarrow> nat \<Rightarrow> streaming_state \<Rightarrow> streaming_state" where
  "streaming_passes cb env 0 st = st"
| "streaming_passes cb env (Suc n) st =
     (case streaming_pass cb env st of
        None \<Rightarrow> st
      | Some st' \<Rightarrow> streaming_passes cb env n st')"

text \<open>
  Lines 1214 to 1217, inside the \<^verbatim>\<open>try\<close> whose handler \<^verbatim>\<open>except Exception as e\<close> (lines
  1219 to 1226) removes the temporary file, if it is still there, and raises again:
  \<^verbatim>\<open>shutil.move(temp_filename, filename)\<close> of a temporary file of \<open>file_size\<close> bytes, then
  the log line, whose figure \<^verbatim>\<open>downloaded / (1024 * 1024)\<close> is computed whether or not the
  line is printed.
\<close>

definition move_to_archive :: "attempt_env \<Rightarrow> int \<Rightarrow> int \<Rightarrow> fs \<Rightarrow> outcome \<times> fs" where
  "move_to_archive env file_size downloaded s =
     (if move_raises env
      then (Raises OSError, s\<lparr>tmp_files := tmp_files s - {temp_name env}\<rparr>)
      else if int_truediv downloaded (1024 * 1024) = None
      then (Raises OverflowError,
            put_entry ''ffmpeg_temp.zip'' (File file_size)
              (s\<lparr>tmp_files := tmp_files s - {temp_name env}\<rparr>))
      else (Done, put_entry ''ffmpeg_temp.zip'' (File file_size)
                    (s\<lparr>tmp_files := tmp_files s - {temp_name env}\<rparr>)))"

text \<open>
  Lines 1098 to 1226, from the temporary file that exists already: the transfer into it,
  then the move. With a known total the file is pre-allocated and mapped first; an
  error there reaches the same handler, which removes the temporary file. The result is
  the outcome, the state, the bytes counted and the messages; \<open>None\<close> when a loop does not
  end.
\<close>

definition fetch_to_temp ::
  "bool \<Rightarrow> attempt_env \<Rightarrow> int \<Rightarrow> fs \<Rightarrow> message list \<Rightarrow> (outcome \<times> fs \<times> int \<times> message list) option"
where
  "fetch_to_temp cb env total_size s msgs =
     (if 0 < total_size then
        (case seek_and_write env total_size of
           Raises e \<Rightarrow> Some (Raises e, s\<lparr>tmp_files := tmp_files s - {temp_name env}\<rparr>, 0, msgs)
         | Done \<Rightarrow>
             if map_refused env total_size
             then Some (Raises OSError, s\<lparr>tmp_files := tmp_files s - {temp_name env}\<rparr>, 0, msgs)
             else
               (case mmap_loop cb env total_size (0, 0, 0, msgs) of
                  None \<Rightarrow> None
                | Some (k, downloaded, position, msgs') \<Rightarrow>
                    (case move_to_archive env total_size downloaded s of
                       (r, s') \<Rightarrow> Some (r, s', downloaded, msgs'))))
      else
        (case streaming_loop cb env (0, 0, msgs) of
           None \<Rightarrow> None
         | Some (k, downloaded, msgs') \<Rightarrow>
             (case move_to_archive env downloaded downloaded s of
                (r, s') \<Rightarrow> Some (r, s', downloaded, msgs'))))"

text \<open>
  The handler of one iteration of the mirror loop (lines 1259 to 1265):
  \<^verbatim>\<open>if os.path.exists(filename): os.remove(filename)\<close>, then \<^verbatim>\<open>continue\<close>.
\<close>

definition mirror_failed :: "fs \<Rightarrow> fs" where
  "mirror_failed s = (if os_path_exists s [''ffmpeg_temp.zip''] then del_entry ''ffmpeg_temp.zip'' s else s)"

text \<open>
  Lines 1234 to 1257: extraction, the shared block, \<^verbatim>\<open>shutil.rmtree(temp_extract,
  ignore_errors=True)\<close>, \<^verbatim>\<open>os.remove(filename)\<close>, \<^verbatim>\<open>return True\<close>.
\<close>

definition simple_install :: "attempt_env \<Rightarrow> fs \<Rightarrow> attempt_result \<times> fs" where
  "simple_install env s =
     (case extract_all env s of
        Inl e \<Rightarrow> (Failed e, mirror_failed s)
      | Inr (listing, s1) \<Rightarrow>
          (case move_bin listing s1 of
             (Raises e, s') \<Rightarrow> (Failed e, mirror_failed s')
           | (Done, s') \<Rightarrow> (Installed, del_entry ''ffmpeg_temp.zip'' (del_entry ''temp'' s'))))"

text \<open>
  The body of \<^verbatim>\<open>for i, url in enumerate(urls)\<close>, lines 1035 to 1265. With a callback and
  a known total, the first message formats \<^verbatim>\<open>mb_total = total_size / (1024 * 1024)\<close> before
  the temporary file is created.
\<close>

definition simple_attempt ::
  "bool \<Rightarrow> attempt_env \<Rightarrow> fs \<Rightarrow> message list \<Rightarrow> (attempt_result \<times> fs \<times> message list) option"
where
  "simple_attempt cb env s msgs =
     (if urlopen_raises env then Some (Failed URLError, mirror_failed s, msgs)
      else
        (case parse_content_length (content_length env) of
           None \<Rightarrow> Some (Failed ValueError, mirror_failed s, msgs)
         | Some total_size \<Rightarrow>
             if cb \<and> 0 < total_size \<and> int_truediv total_size (1024 * 1024) = None
             then Some (Failed OverflowError, mirror_failed s, msgs)
             else
               (case fetch_to_temp cb env total_size
                       (s\<lparr>tmp_files := insert (temp_name env) (tmp_files s)\<rparr>) msgs of
                  None \<Rightarrow> None
                | Some (Raises e, s1, downloaded, msgs') \<Rightarrow> Some (Failed e, mirror_failed s1, msgs')
                | Some (Done, s1, downloaded, msgs') \<Rightarrow>
                    (case simple_install env s1 of (r, s2) \<Rightarrow> Some (r, s2, msgs')))))"

fun simple_mirrors ::
  "bool \<Rightarrow> (string \<Rightarrow> attempt_env) \<Rightarrow> string list \<Rightarrow> fs \<Rightarrow> message list
     \<Rightarrow> (bool \<times> fs \<times> message list) option"
where
  "simple_mirrors cb net [] s msgs = Some (False, s, msgs)"
| "simple_mirrors cb net (url # urls) s msgs =
     (case simple_attempt cb (net url) s msgs of
        None \<Rightarrow> None
      | Some (Installed, s', msgs') \<Rightarrow> Some (True, s', msgs')
      | Some (_, s', msgs') \<Rightarrow> simple_mirrors cb net urls s' msgs')"

text \<open>
  \<open>cb\<close>: a progress callback was passed. \<open>system\<close>: \<^verbatim>\<open>platform.system()\<close>. \<open>net url\<close>: what
  the attempt on that mirror meets. \<open>None\<close>: the function does not return.
\<close>

definition download_with_requests_simple ::
  "bool \<Rightarrow> string \<Rightarrow> (string \<Rightarrow> attempt_env) \<Rightarrow> fs \<Rightarrow> message list
     \<Rightarrow> (bool \<times> fs \<times> message list) option"
where
  "download_with_requests_simple cb system net s msgs =
     simple_mirrors cb net (get_ffmpeg_download_urls system) s msgs"

text \<open>
  \<^verbatim>\<open>download_with_ultra_speed\<close>: the mirror loop, then
  \<^verbatim>\<open>return download_with_requests_simple(progress_callback)\<close> when no mirror returned.
  The second round of requests meets its own answers, \<open>net2\<close>.
\<close>

definition download_with_ultra_speed ::
  "bool \<Rightarrow> string \<Rightarrow> (string \<Rightarrow> attempt_env) \<Rightarrow> (string \<Rightarrow> attempt_env) \<Rightarrow> fs
     \<Rightarrow> (bool \<times> fs \<times> message list) option"
where
  "download_with_ultra_speed cb system net net2 s =
     (case ultra_mirrors cb net (get_ffmpeg_download_urls system) s [] of
        (True, s', msgs) \<Rightarrow> Some (True, s', msgs)
      | (False, s', msgs) \<Rightarrow> download_with_requests_simple cb system net2 s' msgs)"

section \<open>Entry point\<close>

text \<open>
  \<^verbatim>\<open>ensure_ffmpeg_available(parent_window=None)\<close>. With a parent window the function
  returns what the dialog's \<^verbatim>\<open>download_ffmpeg()\<close> returns; the dialog is user interface and
  is an argument here: \<open>Some d\<close> for a window whose dialog maps the state to its result,
  \<open>None\<close> for no window.
\<close>

definition ensure_ffmpeg_available ::
  "string \<Rightarrow> (fs \<Rightarrow> (bool \<times> fs) option) option \<Rightarrow> (string \<Rightarrow> attempt_env) \<Rightarrow> fs
     \<Rightarrow> (bool \<times> fs) option"
where
  "ensure_ffmpeg_available system parent_window net s =
     (if is_ffmpeg_available system s then Some (True, s)
      else
        (case parent_window of
           Some dialog \<Rightarrow> dialog s
         | None \<Rightarrow>
             map_option (\<lambda>(r, s', msgs). (r, s'))
               (download_with_requests_simple False system net s [])))"

section \<open>Strategy probe and the external downloader\<close>

text \<open>
  What \<^verbatim>\<open>get_aria2_path\<close> reads from the machine it runs on. The paths it probes lie
  outside the FFmpeg folder and are plain strings. \<open>base_path\<close> is what \<^verbatim>\<open>resource_path\<close>
  joins to: \<^verbatim>\<open>sys._MEIPASS\<close>, or \<^verbatim>\<open>os.path.abspath(".")\<close>. \<open>aria2c_version\<close> is the return code
  of \<^verbatim>\<open>subprocess.run(['aria2c', '--version'], capture_output=True, timeout=5, ...)\<close>,
  \<open>None\<close> when the call raises (no such program, or the 5 seconds pass).
\<close>

record host =
  sys_platform :: string
  base_path :: string
  os_path_join :: "string \<Rightarrow> string \<Rightarrow> string"
  os_path_abspath :: "string \<Rightarrow> string"
  host_path_exists :: "string \<Rightarrow> bool"
  aria2c_version :: "int option"

definition resource_path :: "host \<Rightarrow> string \<Rightarrow> string" where
  "resource_path h relative_path = os_path_join h (base_path h) relative_path"

definition aria2c_name :: "host \<Rightarrow> string" where
  "aria2c_name h = (if take 3 (sys_platform h) = ''win'' then ''aria2c.exe'' else ''aria2c'')"

text \<open>The backslash of the two Windows paths is the character with code 0x5C.\<close>

definition common_paths :: "string list" where
  "common_paths =
     [''C:'' @ CHR 0x5C # ''Program Files'' @ CHR 0x5C # ''aria2'' @ CHR 0x5C # ''aria2c.exe'',
      ''C:'' @ CHR 0x5C # ''Program Files (x86)'' @ CHR 0x5C # ''aria2'' @ CHR 0x5C # ''aria2c.exe'',
      ''/usr/bin/aria2c'',
      ''/usr/local/bin/aria2c'']"

definition get_aria2_path :: "host \<Rightarrow> string option" where
  "get_aria2_path h =
     (let bundled_path = resource_path h (aria2c_name h) in
      if host_path_exists h bundled_path then Some bundled_path
      else
        (let local_path = aria2c_name h in
         if host_path_exists h local_path then Some (os_path_abspath h local_path)
         else if aria2c_version h = Some 0 then Some ''aria2c''
         else find (host_path_exists h) common_paths))"

text \<open>
  The install block of \<^verbatim>\<open>download_with_aria2\<close> (lines 968 to 979). It differs from the
  shared block in one point: \<^verbatim>\<open>import shutil\<close> stands inside
  \<^verbatim>\<open>if os.path.exists(bin_target)\<close>, which makes \<^verbatim>\<open>shutil\<close> a local name of the function
  that is bound only when that branch has run; \<^verbatim>\<open>shutil.move\<close> after a skipped branch
  raises \<^verbatim>\<open>UnboundLocalError\<close>.
\<close>

definition aria2_move_bin :: "(string \<times> node) list \<Rightarrow> fs \<Rightarrow> outcome \<times> fs" where
  "aria2_move_bin listing s =
     (case extracted_folders listing of
        [] \<Rightarrow> (Done, s)
      | (f, source_folder) # _ \<Rightarrow>
          (case node_at source_folder [''bin''] of
             None \<Rightarrow> (Done, s)
           | Some bin_source \<Rightarrow>
               (case ffmpeg_dir s ''bin'' of
                  None \<Rightarrow> (Raises UnboundLocalError, s)
                | Some (File sz) \<Rightarrow> (Raises NotADirectoryError, s)
                | Some (Dir es) \<Rightarrow>
                    (Done, put_entry ''bin'' bin_source
                             (put_entry ''temp'' (temp_after_move f listing) s)))))"

text \<open>
  The body of the mirror loop of \<^verbatim>\<open>download_with_aria2\<close> (lines 834 to 995).
  \<open>aria2_run\<close> is \<open>None\<close> when the process never ends (the polling loop spins),
  \<open>Some PopenRaises\<close> when it cannot be started, \<open>Some (Exits return_code written)\<close>
  when it ends, having left a file of \<open>sz\<close> bytes at \<^verbatim>\<open>filename\<close> if \<open>written = Some sz\<close>.
  The handler of this loop only logs.
\<close>

definition aria2_attempt :: "attempt_env \<Rightarrow> fs \<Rightarrow> (attempt_result \<times> fs) option" where
  "aria2_attempt env s =
     (case aria2_run env of
        None \<Rightarrow> None
      | Some PopenRaises \<Rightarrow> Some (Failed OSError, s)
      | Some (Exits return_code written) \<Rightarrow>
          (let s1 = (case written of None \<Rightarrow> s | Some sz \<Rightarrow> put_entry ''ffmpeg_temp.zip'' (File sz) s) in
           if return_code = 0 \<and> os_path_exists s1 [''ffmpeg_temp.zip''] then
             (case extract_all env s1 of
                Inl e \<Rightarrow> Some (Failed e, s1)
              | Inr (listing, s2) \<Rightarrow>
                  (case aria2_move_bin listing s2 of
                     (Raises e, s3) \<Rightarrow> Some (Failed e, s3)
                   | (Done, s3) \<Rightarrow>
                       Some (Installed, del_entry ''temp'' (del_entry ''ffmpeg_temp.zip'' s3))))
           else Some (ExitFailure, s1)))"

fun aria2_mirrors ::
  "(string \<Rightarrow> attempt_env) \<Rightarrow> string list \<Rightarrow> fs \<Rightarrow> (bool \<times> fs) option"
where
  "aria2_mirrors net [] s = Some (False, s)"
| "aria2_mirrors net (url # urls) s =
     (case aria2_attempt (net url) s of
        None \<Rightarrow> None
      | Some (Installed, s') \<Rightarrow> Some (True, s')
      | Some (_, s') \<Rightarrow> aria2_mirrors net urls s')"

text \<open>
  \<^verbatim>\<open>download_with_aria2(progress_callback=None)\<close>, the second definition of that name in
  the module, which is the one in force. \<^verbatim>\<open>if not aria2_path\<close> holds for \<^verbatim>\<open>None\<close> and for
  the empty string. The messages of the aria2 loop carry no percentage and are left out.
\<close>

definition download_with_aria2 ::
  "bool \<Rightarrow> string \<Rightarrow> host \<Rightarrow> (string \<Rightarrow> attempt_env) \<Rightarrow> (string \<Rightarrow> attempt_env) \<Rightarrow> fs
     \<Rightarrow> (bool \<times> fs \<times> message list) option"
where
  "download_with_aria2 cb system h net net2 s =
     (case get_aria2_path h of
        None \<Rightarrow> download_with_requests_simple cb system net2 s []
      | Some aria2_path \<Rightarrow>
          if aria2_path = [] then download_with_requests_simple cb system net2 s []
          else
            (case aria2_mirrors net (get_ffmpeg_download_urls system) s of
               None \<Rightarrow> None
             | Some (True, s') \<Rightarrow> Some (True, s', [])
             | Some (False, s') \<Rightarrow> download_with_requests_simple cb system net2 s' []))"

section \<open>Concrete states and environments\<close>

text \<open>
  The inputs at which the theorems below are evaluated. \<open>empty_fs\<close> is a machine before
  the first install, \<open>installed_fs\<close> one after an install on Windows.
\<close>

definition empty_fs :: fs where
  "empty_fs = \<lparr>ffmpeg_dir = Map.empty, tmp_files = {}\<rparr>"

definition installed_fs :: fs where
  "installed_fs =
     \<lparr>ffmpeg_dir = [''bin'' \<mapsto> Dir [(''ffmpeg.exe'', File 80000000)]], tmp_files = {}\<rparr>"

text \<open>A machine with no aria2c anywhere.\<close>

definition bare_host :: host where
  "bare_host =
     \<lparr>sys_platform = ''linux'', base_path = ''/opt/cutpro'',
      os_path_join = (\<lambda>a b. a @ ''/'' @ b),
      os_path_abspath = (\<lambda>p. ''/opt/cutpro/'' @ p),
      host_path_exists = (\<lambda>p. False), aria2c_version = None\<rparr>"

text \<open>A mirror that cannot be reached.\<close>

definition no_server :: attempt_env where
  "no_server =
     \<lparr>urlopen_raises = True, content_length = Absent,
      file_refused = (\<lambda>n. False), map_refused = (\<lambda>n. False),
      chunk_fetch = (\<lambda>start stop. None), completion_order = (\<lambda>ranges. ranges),
      timeout_after = None, tick = (\<lambda>k. False), temp_name = ''tmpa1b2c3'',
      reads = (\<lambda>k. ReadError), move_raises = False, extraction = None,
      aria2_run = None\<rparr>"

text \<open>
  A resource of 2 MiB + 4096 bytes: 2 MiB that no archive member refers to (the stub in
  front of a self-extracting archive, say), followed by a complete ZIP archive of 4096
  bytes holding \<^verbatim>\<open>ffmpeg-7.1-essentials_build/bin/ffmpeg.exe\<close>. The ranged request for the
  first segment raises; the one for the second segment returns its bytes. The decoder
  finds the archive from the end of the file and accepts it whatever the first 2 MiB hold.
\<close>

definition first_segment_lost :: attempt_env where
  "first_segment_lost =
     no_server\<lparr>urlopen_raises := False, content_length := Length 2101248,
       chunk_fetch := (\<lambda>start stop. if start = 0 then None else Some (nat (stop - start + 1))),
       extraction := Some [(''ffmpeg-7.1-essentials_build'',
                            Dir [(''bin'', Dir [(''ffmpeg.exe'', File 3000)])])]\<rparr>"

text \<open>
  A mirror whose archive of 1000 bytes unpacks to one folder without a \<^verbatim>\<open>bin\<close> folder.
\<close>

definition archive_without_bin :: attempt_env where
  "archive_without_bin =
     no_server\<lparr>urlopen_raises := False, content_length := Length 1000,
       chunk_fetch := (\<lambda>start stop. Some (nat (stop - start + 1))),
       reads := (\<lambda>k. Chunk 1000),
       extraction := Some [(''ffmpeg-7.1-essentials_build'',
                            Dir [(''README.txt'', File 120), (''doc'', Dir [])])]\<rparr>"

text \<open>
  A mirror whose archive of 1000 bytes holds a single file \<^verbatim>\<open>ffmpeg\<close> of 890 bytes, stored
  uncompressed at its top level, and no folder.
\<close>

definition flat_archive :: attempt_env where
  "flat_archive =
     no_server\<lparr>urlopen_raises := False, content_length := Length 1000,
       reads := (\<lambda>k. Chunk 1000),
       extraction := Some [(''ffmpeg'', File 890)]\<rparr>"

text \<open>
  A mirror that sends no Content-Length, 5 bytes of the body and then nothing more: the
  socket timeout of 30 seconds strikes in the second call of \<^verbatim>\<open>readinto\<close>, and every
  later call on the broken response raises at once.
\<close>

definition stalled_body :: attempt_env where
  "stalled_body =
     no_server\<lparr>urlopen_raises := False, content_length := Absent,
       reads := (\<lambda>k. if k = 0 then Chunk 5 else ReadError)\<rparr>"

text \<open>
  A mirror of a 3 MiB resource that ignores the \<^verbatim>\<open>Range\<close> header and answers every ranged
  request with the whole body; the clock lets every progress message through.
\<close>

definition range_ignored :: attempt_env where
  "range_ignored =
     no_server\<lparr>urlopen_raises := False, content_length := Length 3145728,
       chunk_fetch := (\<lambda>start stop. Some 3145728), tick := (\<lambda>k. True)\<rparr>"

text \<open>
  A mirror of a 1000-byte resource that answers every ranged request with exactly the
  bytes asked for and every read with 500 bytes; the clock lets every progress message
  through.
\<close>

definition steady_body :: attempt_env where
  "steady_body =
     no_server\<lparr>urlopen_raises := False, content_length := Length 1000,
       chunk_fetch := (\<lambda>start stop. Some (nat (stop - start + 1))),
       tick := (\<lambda>k. True), reads := (\<lambda>k. Chunk 500)\<rparr>"

text \<open>A mirror that sends \<^verbatim>\<open>Content-Length: -5\<close>.\<close>

definition negative_length :: attempt_env where
  "negative_length = no_server\<lparr>urlopen_raises := False, content_length := Length (- 5)\<rparr>"

text \<open>A mirror that sends no Content-Length and is otherwise silent.\<close>

definition no_length :: attempt_env where
  "no_length = no_server\<lparr>urlopen_raises := False, content_length := Absent\<rparr>"

text \<open>A mirror that sends \<^verbatim>\<open>Content-Length: 9223372036854775808\<close>, which is \<open>2 ^ 63\<close>.\<close>

definition oversized_length :: attempt_env where
  "oversized_length =
     no_server\<lparr>urlopen_raises := False, content_length := Length 9223372036854775808\<rparr>"

text \<open>
  A mirror of a 3 MiB resource on a machine whose disk is full: no file of that size can
  be written.
\<close>

definition disk_full :: attempt_env where
  "disk_full =
     no_server\<lparr>urlopen_raises := False, content_length := Length 3145728,
       file_refused := (\<lambda>n. 4096 < n)\<rparr>"


section \<open>Properties of the mirror list\<close>

text \<open>
  Claim C10. For every platform string the mirror list is non-empty, so the primary URL is
  never \<open>None\<close>; a platform other than Windows and Darwin gets the list that Linux gets.
\<close>

theorem mirror_list_nonempty:
  "get_ffmpeg_download_urls system \<noteq> []
   \<and> get_ffmpeg_download_url system \<noteq> None
   \<and> (system \<noteq> ''Windows'' \<and> system \<noteq> ''Darwin''
        \<longrightarrow> get_ffmpeg_download_urls system = get_ffmpeg_download_urls ''Linux'')"
  by (simp add: get_ffmpeg_download_urls_def get_ffmpeg_download_url_def)

theorem mirror_list_nonempty_witness:
  "''FreeBSD'' \<noteq> ''Windows'' \<and> ''FreeBSD'' \<noteq> ''Darwin''
   \<and> get_ffmpeg_download_urls ''FreeBSD'' = get_ffmpeg_download_urls ''Linux''
   \<and> get_ffmpeg_download_url ''FreeBSD''
       = Some ''https://johnvansickle.com/ffmpeg/releases/ffmpeg-release-amd64-static.tar.xz''"
  using mirror_list_nonempty [of "''FreeBSD''"]
  by (simp add: get_ffmpeg_download_urls_def get_ffmpeg_download_url_def)

section \<open>Properties of the range partition\<close>

lemma chunk_ranges_from_unfold:
  "0 < chunk_size \<Longrightarrow> i < total_size \<Longrightarrow>
     chunk_ranges_from i total_size chunk_size =
       (i, min (i + chunk_size - 1) (total_size - 1))
         # chunk_ranges_from (i + chunk_size) total_size chunk_size"
  by (subst chunk_ranges_from.simps) simp

lemma chunk_ranges_from_done:
  "\<not> i < total_size \<Longrightarrow> chunk_ranges_from i total_size chunk_size = []"
  by (subst chunk_ranges_from.simps) simp

lemma chunk_ranges_from_cover:
  "0 < chunk_size \<Longrightarrow> i < total_size \<Longrightarrow>
     concat (map (\<lambda>(s, e). [s..e]) (chunk_ranges_from i total_size chunk_size))
       = [i..total_size - 1]"
proof (induction i total_size chunk_size rule: chunk_ranges_from.induct)
  case (1 i total_size chunk_size)
  note unf = chunk_ranges_from_unfold [OF "1.prems"]
  show ?case
  proof (cases "i + chunk_size < total_size")
    case True
    with "1.IH" "1.prems"
    have IH: "concat (map (\<lambda>(s, e). [s..e])
                (chunk_ranges_from (i + chunk_size) total_size chunk_size))
              = [i + chunk_size..total_size - 1]"
      by simp
    from True "1.prems"
    have m: "min (i + chunk_size - 1) (total_size - 1) = i + chunk_size - 1"
      by simp
    have "[i..total_size - 1]
            = [i..i + chunk_size - 1] @ [i + chunk_size - 1 + 1..total_size - 1]"
      using True "1.prems" by (intro upto_split2) auto
    with IH m show ?thesis
      by (simp add: unf)
  next
    case False
    then have "chunk_ranges_from (i + chunk_size) total_size chunk_size = []"
      by (intro chunk_ranges_from_done) simp
    moreover from False
    have "min (i + chunk_size - 1) (total_size - 1) = total_size - 1"
      by simp
    ultimately show ?thesis
      by (simp add: unf)
  qed
qed

lemma chunk_ranges_from_last:
  "0 < chunk_size \<Longrightarrow> i < total_size \<Longrightarrow>
     snd (last (chunk_ranges_from i total_size chunk_size)) = total_size - 1"
proof (induction i total_size chunk_size rule: chunk_ranges_from.induct)
  case (1 i total_size chunk_size)
  note unf = chunk_ranges_from_unfold [OF "1.prems"]
  show ?case
  proof (cases "i + chunk_size < total_size")
    case True
    with "1.IH" "1.prems"
    have IH: "snd (last (chunk_ranges_from (i + chunk_size) total_size chunk_size))
              = total_size - 1"
      by simp
    from True "1.prems"
    have "chunk_ranges_from (i + chunk_size) total_size chunk_size \<noteq> []"
      by (simp add: chunk_ranges_from_unfold)
    with IH show ?thesis
      by (simp add: unf)
  next
    case False
    then have "chunk_ranges_from (i + chunk_size) total_size chunk_size = []"
      by (intro chunk_ranges_from_done) simp
    moreover from False
    have "min (i + chunk_size - 1) (total_size - 1) = total_size - 1"
      by simp
    ultimately show ?thesis
      by (simp add: unf)
  qed
qed

lemma chunk_size_pos: "0 < max CHUNK_SIZE (total_size div MAX_CONNECTIONS)"
  by (simp add: CHUNK_SIZE_def max_def)

lemma chunk_ranges_5MiB:
  "chunk_ranges 5242880 = [(0, 2097151), (2097152, 4194303), (4194304, 5242879)]"
  by (simp add: chunk_ranges_def CHUNK_SIZE_def MAX_CONNECTIONS_def
        chunk_ranges_from_unfold chunk_ranges_from_done)

text \<open>
  Claim C3. For every \<open>total_size > 0\<close> the ranges of the partitioning step, read as the
  closed intervals \<open>[start..end]\<close> and put one after the other, are exactly the offsets
  \<open>0, 1, ..., total_size - 1\<close> in order, each once: no gap and no overlap. There is at
  least one range and the last one ends at \<open>total_size - 1\<close>.
\<close>

theorem chunk_ranges_partition:
  assumes "0 < total_size"
  shows "concat (map (\<lambda>(s, e). [s..e]) (chunk_ranges total_size)) = [0..total_size - 1]
       \<and> chunk_ranges total_size \<noteq> []
       \<and> snd (last (chunk_ranges total_size)) = total_size - 1"
  unfolding chunk_ranges_def
  using chunk_ranges_from_cover [OF chunk_size_pos assms]
    chunk_ranges_from_last [OF chunk_size_pos assms]
    chunk_ranges_from_unfold [OF chunk_size_pos assms]
  by simp

theorem chunk_ranges_partition_witness:
  "(0::int) < 5242880
   \<and> chunk_ranges 5242880 = [(0, 2097151), (2097152, 4194303), (4194304, 5242879)]
   \<and> snd (last (chunk_ranges 5242880)) = 5242880 - 1"
proof -
  have pos: "(0::int) < 5242880" by simp
  from chunk_ranges_partition [OF pos]
  have "snd (last (chunk_ranges 5242880)) = 5242880 - 1"
    by (elim conjE)
  with pos chunk_ranges_5MiB show ?thesis by (intro conjI)
qed

section \<open>Properties of the float arithmetic\<close>

lemma flog2_le:
  assumes "0 < x"
  shows "2 powi flog2 x \<le> x"
proof (cases "1 \<le> x")
  case True
  then have pos: "0 < \<lfloor>x\<rfloor>" by simp
  from bitlen_bounds [OF pos] have "2 ^ nat (bitlen \<lfloor>x\<rfloor> - 1) \<le> \<lfloor>x\<rfloor>" by simp
  then have "(of_int (2 ^ nat (bitlen \<lfloor>x\<rfloor> - 1)) :: rat) \<le> of_int \<lfloor>x\<rfloor>"
    by (simp only: of_int_le_iff)
  then have le: "(2 :: rat) ^ nat (bitlen \<lfloor>x\<rfloor> - 1) \<le> x" by (simp add: le_floor_iff)
  have "1 \<le> bitlen \<lfloor>x\<rfloor>" using pos by (simp add: bitlen_alt_def)
  then have "(2 :: rat) powi (bitlen \<lfloor>x\<rfloor> - 1) = 2 ^ nat (bitlen \<lfloor>x\<rfloor> - 1)"
    by (simp add: power_int_nonneg_exp)
  with le True show ?thesis by (simp add: flog2_def)
next
  case False
  define c where "c = \<lceil>1 / x\<rceil> - 1"
  from False assms have "1 < 1 / x" by simp
  then have "1 < \<lceil>1 / x\<rceil>" by (simp add: less_ceiling_iff)
  then have pos: "0 < c" by (simp add: c_def)
  from bitlen_bounds [OF pos] have "c + 1 \<le> 2 ^ nat (bitlen c)" by simp
  then have "(of_int (c + 1) :: rat) \<le> of_int (2 ^ nat (bitlen c))" by (simp only: of_int_le_iff)
  moreover have "1 / x \<le> of_int (c + 1)" by (simp add: c_def)
  ultimately have "1 / x \<le> (2 :: rat) ^ nat (bitlen c)" by simp
  then have "1 \<le> 2 ^ nat (bitlen c) * x" using assms by (simp add: field_simps)
  then have "inverse ((2 :: rat) ^ nat (bitlen c)) \<le> x"
    by (simp add: field_simps)
  moreover have "(2 :: rat) powi (- bitlen c) = inverse (2 ^ nat (bitlen c))"
    using bitlen_nonneg [of c] by (simp add: power_int_minus power_int_nonneg_exp)
  ultimately show ?thesis using False by (simp add: flog2_def c_def)
qed

lemma flog2_gt:
  assumes "0 < x"
  shows "x < 2 powi (flog2 x + 1)"
proof (cases "1 \<le> x")
  case True
  then have pos: "0 < \<lfloor>x\<rfloor>" by simp
  from bitlen_bounds [OF pos] have "\<lfloor>x\<rfloor> + 1 \<le> 2 ^ nat (bitlen \<lfloor>x\<rfloor>)" by simp
  then have "(of_int (\<lfloor>x\<rfloor> + 1) :: rat) \<le> of_int (2 ^ nat (bitlen \<lfloor>x\<rfloor>))"
    by (simp only: of_int_le_iff)
  moreover have "x < of_int (\<lfloor>x\<rfloor> + 1)" by linarith
  ultimately have "x < (2 :: rat) ^ nat (bitlen \<lfloor>x\<rfloor>)" by simp
  moreover have "(2 :: rat) powi bitlen \<lfloor>x\<rfloor> = 2 ^ nat (bitlen \<lfloor>x\<rfloor>)"
    using bitlen_nonneg [of "\<lfloor>x\<rfloor>"] by (simp add: power_int_nonneg_exp)
  ultimately show ?thesis using True by (simp add: flog2_def)
next
  case False
  define c where "c = \<lceil>1 / x\<rceil> - 1"
  from False assms have "1 < 1 / x" by simp
  then have "1 < \<lceil>1 / x\<rceil>" by (simp add: less_ceiling_iff)
  then have pos: "0 < c" by (simp add: c_def)
  then have one: "1 \<le> bitlen c" by (simp add: bitlen_alt_def)
  from bitlen_bounds [OF pos] have low: "2 ^ nat (bitlen c - 1) \<le> c" by simp
  have "(2 :: rat) ^ nat (bitlen c - 1) = of_int (2 ^ nat (bitlen c - 1))" by simp
  also from low have "\<dots> \<le> of_int c" by (simp only: of_int_le_iff)
  also have "of_int c < 1 / x" unfolding c_def by linarith
  finally have "(2 :: rat) ^ nat (bitlen c - 1) < 1 / x" .
  then have "x * 2 ^ nat (bitlen c - 1) < 1" using assms by (simp add: field_simps)
  then have "x < inverse ((2 :: rat) ^ nat (bitlen c - 1))"
    by (simp add: field_simps)
  moreover have "(2 :: rat) powi (- bitlen c + 1) = inverse (2 ^ nat (bitlen c - 1))"
  proof -
    have "- bitlen c + 1 = - (bitlen c - 1)" by simp
    then have "(2 :: rat) powi (- bitlen c + 1) = inverse (2 powi (bitlen c - 1))"
      by (simp only: power_int_minus)
    with one show ?thesis by (simp add: power_int_nonneg_exp)
  qed
  ultimately show ?thesis using False by (simp add: flog2_def c_def)
qed

lemma round_half_even_le:
  assumes "m \<le> of_int N"
  shows "round_half_even m \<le> N"
proof -
  have fl: "\<lfloor>m\<rfloor> \<le> N" using assms by (simp add: floor_le_iff)
  show ?thesis
  proof (cases "\<lfloor>m\<rfloor> = N")
    case True
    then have "of_int N \<le> m" by (metis of_int_floor_le)
    with assms have "m = of_int N" by simp
    then show ?thesis by (simp add: round_half_even_def)
  next
    case False
    with fl have "\<lfloor>m\<rfloor> + 1 \<le> N" by simp
    then show ?thesis by (simp add: round_half_even_def Let_def)
  qed
qed

lemma round_half_even_ge:
  assumes "of_int N \<le> m"
  shows "N \<le> round_half_even m"
proof -
  have "N \<le> \<lfloor>m\<rfloor>" using assms by (simp add: le_floor_iff)
  then show ?thesis by (simp add: round_half_even_def Let_def)
qed

lemma to_double_between:
  assumes l: "0 \<le> l" "of_int l \<le> x" and c: "x \<le> of_int c" "c < 2 ^ 53"
  shows "\<exists>y. to_double x = Some y \<and> of_int l \<le> y \<and> y \<le> of_int c"
proof (cases "x = 0")
  case True
  with l c show ?thesis by (simp add: to_double_def)
next
  case False
  with l have pos: "0 < x" by simp
  define e where "e = max (flog2 x) (- 1022)"
  define ulp :: rat where "ulp = 2 powi (e - 52)"
  define y where "y = of_int (round_half_even (x / ulp)) * ulp"
  have ulp_pos: "0 < ulp" by (simp add: ulp_def)
  have "(2 :: rat) powi flog2 x \<le> x" by (rule flog2_le [OF pos])
  also have "x \<le> of_int c" by (rule c)
  also have "(of_int c :: rat) < of_int (2 ^ 53)" using c by (simp only: of_int_less_iff)
  finally have "(2 :: rat) powi flog2 x < 2 powi 53" by simp
  then have "flog2 x < 53" by (rule power_int_le_imp_less_exp [rotated]) simp_all
  then have e52: "e \<le> 52" by (simp add: e_def)
  define k :: int where "k = 2 ^ nat (52 - e)"
  have "ulp * of_int k = 2 powi (e - 52) * 2 powi (52 - e)"
    using e52 by (simp add: ulp_def k_def power_int_nonneg_exp)
  also have "\<dots> = 1" by (simp flip: power_int_add)
  finally have inv: "ulp * of_int k = 1" .
  have scale: "of_int n / ulp = of_int (n * k)" for n
  proof -
    have "of_int (n * k) * ulp = of_int n * (ulp * of_int k)" by simp
    with inv have "of_int (n * k) * ulp = of_int n" by simp
    with ulp_pos show ?thesis by (simp add: field_simps)
  qed
  have unscale: "of_int (n * k) * ulp = of_int n" for n
  proof -
    have "of_int (n * k) * ulp = of_int n * (ulp * of_int k)" by simp
    with inv show ?thesis by simp
  qed
  have "x / ulp \<le> of_int c / ulp" using c ulp_pos by (simp add: divide_right_mono)
  then have "x / ulp \<le> of_int (c * k)" by (simp only: scale)
  then have "round_half_even (x / ulp) \<le> c * k" by (rule round_half_even_le)
  then have "(of_int (round_half_even (x / ulp)) :: rat) \<le> of_int (c * k)"
    by (simp only: of_int_le_iff)
  then have "y \<le> of_int (c * k) * ulp" using ulp_pos by (simp add: y_def)
  then have y_le: "y \<le> of_int c" by (simp only: unscale)
  have "of_int l / ulp \<le> x / ulp" using l ulp_pos by (simp add: divide_right_mono)
  then have "of_int (l * k) \<le> x / ulp" by (simp only: scale)
  then have "l * k \<le> round_half_even (x / ulp)" by (rule round_half_even_ge)
  then have "(of_int (l * k) :: rat) \<le> of_int (round_half_even (x / ulp))"
    by (simp only: of_int_le_iff)
  then have "of_int (l * k) * ulp \<le> y" using ulp_pos by (simp add: y_def)
  then have y_ge: "of_int l \<le> y" by (simp only: unscale)
  have "(of_int c :: rat) < of_int (2 ^ 53)" using c by (simp only: of_int_less_iff)
  also have "(of_int (2 ^ 53) :: rat) \<le> 2 powi 1024" by simp
  finally have "y < 2 powi 1024" using y_le by simp
  then have "to_double x = Some y"
    using False pos by (simp add: to_double_def Let_def e_def ulp_def y_def)
  with y_le y_ge show ?thesis by simp
qed

lemma to_double_of_int:
  assumes "0 \<le> n" and "n < 2 ^ 53"
  shows "to_double (of_int n) = Some (of_int n)"
proof -
  from to_double_between [of n "of_int n" n] assms
  obtain y where "to_double (of_int n) = Some y" "of_int n \<le> y" "y \<le> of_int n" by auto
  then show ?thesis by simp
qed

lemma to_double_numeral:
  assumes "(numeral n :: int) < 2 ^ 53"
  shows "to_double (numeral n) = Some (numeral n)"
  using to_double_of_int [of "numeral n"] assms by simp

lemma to_double_one: "to_double 1 = Some 1"
  using to_double_of_int [of 1] by simp

lemma py_int_bounds:
  assumes "0 \<le> x" and "x \<le> of_int c"
  shows "0 \<le> py_int x \<and> py_int x \<le> c"
  using assms by (simp add: py_int_def floor_le_iff le_floor_iff)

lemma progress_percent_bounds:
  assumes "0 < total_size" and "0 \<le> bytes_so_far" and "bytes_so_far \<le> total_size"
  shows "\<exists>p. progress_percent bytes_so_far total_size = Some p \<and> 0 \<le> p \<and> p \<le> 100"
proof -
  let ?x = "(of_int bytes_so_far / of_int total_size :: rat)"
  have "of_int 0 \<le> ?x" "?x \<le> of_int 1" using assms by simp_all
  from to_double_between [OF _ this] obtain q
    where q: "to_double ?x = Some q" "0 \<le> q" "q \<le> 1" by auto
  have "of_int 0 \<le> q * 100" "q * 100 \<le> of_int 100" using q by simp_all
  from to_double_between [OF _ this] obtain p
    where p: "to_double (q * 100) = Some p" "0 \<le> p" "p \<le> of_int 100" by auto
  from py_int_bounds [OF p(2) p(3)] q p assms show ?thesis
    by (simp add: progress_percent_def int_truediv_def)
qed

text \<open>
  The rounding shows: 29 bytes of 100 are reported as 28 percent, since the float nearest
  to 0.29, times 100, is rounded to the float just below 29.
\<close>

lemma progress_percent_rounds: "progress_percent 29 100 = Some 28"
  by code_simp

lemma megabytes_figure:
  assumes "0 \<le> n" and "n < 2 ^ 53"
  shows "int_truediv n 1048576 \<noteq> None"
proof -
  have "of_int 0 \<le> (of_int n / 1048576 :: rat)"
    using assms by simp
  moreover have "(of_int n / 1048576 :: rat) \<le> of_int n"
    using assms by (simp add: field_simps)
  ultimately obtain y where "to_double (of_int n / 1048576) = Some y"
    using to_double_between [of 0 "of_int n / 1048576" n] assms by auto
  then show ?thesis by (simp add: int_truediv_def)
qed

lemma progress_message_sent:
  assumes "0 < total_size" and "total_size < 2 ^ 53"
    and "0 \<le> bytes_so_far" and "bytes_so_far \<le> total_size"
  shows "\<exists>p. progress_message bytes_so_far total_size = Some (Progress p bytes_so_far total_size)
             \<and> 0 \<le> p \<and> p \<le> 100"
proof -
  from progress_percent_bounds [OF assms(1,3,4)] obtain p
    where p: "progress_percent bytes_so_far total_size = Some p" "0 \<le> p" "p \<le> 100" by auto
  from assms have "int_truediv bytes_so_far 1048576 \<noteq> None"
    and "int_truediv total_size 1048576 \<noteq> None"
    by (simp_all add: megabytes_figure)
  with p show ?thesis by (simp add: progress_message_def)
qed

lemmas float_eval =
  progress_block_def progress_message_def progress_percent_def int_truediv_def
  to_double_numeral to_double_one py_int_def

section \<open>Evaluation on concrete inputs\<close>

lemmas chunk_ranges_eval =
  chunk_ranges_def CHUNK_SIZE_def MAX_CONNECTIONS_def chunk_ranges_from_unfold
  chunk_ranges_from_done

lemmas fs_eval =
  put_entry_def del_entry_def os_path_exists_def os_path_isfile_def os_path_getsize_def
  fs_lookup_def mirror_failed_def empty_fs_def

lemmas install_eval = extract_all_def move_bin_def extracted_folders_def temp_after_move_def

lemmas ultra_eval =
  ultra_attempt_def preallocate_def seek_and_write_def download_chunk_def
  downloaded_chunks_def assemble_def write_at_def ultra_install_def

lemmas simple_eval =
  simple_attempt_def fetch_to_temp_def seek_and_write_def move_to_archive_def
  simple_install_def download_with_requests_simple_def

text \<open>A loop that is left after \<open>n\<close> passes returns the state it has then.\<close>

lemma mmap_loop_passes:
  "mmap_pass cb env total_size (mmap_passes cb env total_size n st) = None \<Longrightarrow>
     mmap_loop cb env total_size st = Some (mmap_passes cb env total_size n st)"
proof (induction n arbitrary: st)
  case 0
  then show ?case by (subst mmap_loop.simps) simp
next
  case (Suc n)
  show ?case
  proof (cases "mmap_pass cb env total_size st")
    case None
    then show ?thesis by (subst mmap_loop.simps) simp
  next
    case (Some st')
    with Suc.prems have "mmap_pass cb env total_size (mmap_passes cb env total_size n st') = None"
      by simp
    from Suc.IH [OF this] Some show ?thesis by (subst mmap_loop.simps) simp
  qed
qed

lemma streaming_loop_passes:
  "streaming_pass cb env (streaming_passes cb env n st) = None \<Longrightarrow>
     streaming_loop cb env st = Some (streaming_passes cb env n st)"
proof (induction n arbitrary: st)
  case 0
  then show ?case by (subst streaming_loop.simps) simp
next
  case (Suc n)
  show ?case
  proof (cases "streaming_pass cb env st")
    case None
    then show ?thesis by (subst streaming_loop.simps) simp
  next
    case (Some st')
    with Suc.prems have "streaming_pass cb env (streaming_passes cb env n st') = None"
      by simp
    from Suc.IH [OF this] Some show ?thesis by (subst streaming_loop.simps) simp
  qed
qed

text \<open>A loop that returns was left after some number of passes.\<close>

lemma mmap_loop_returns:
  assumes ret: "mmap_loop cb env total_size st = Some r"
  shows "\<exists>n. r = mmap_passes cb env total_size n st \<and> mmap_pass cb env total_size r = None"
proof (rule mmap_loop.raw_induct
    [where P = "\<lambda>cb env total_size st r.
       \<exists>n. r = mmap_passes cb env total_size n st \<and> mmap_pass cb env total_size r = None",
     OF _ ret])
  fix f cb env total_size st r
  assume IH: "\<And>cb env total_size st r. f cb env total_size st = Some r \<Longrightarrow>
       \<exists>n. r = mmap_passes cb env total_size n st \<and> mmap_pass cb env total_size r = None"
    and eq: "(case mmap_pass cb env total_size st of None \<Rightarrow> Some st
              | Some st' \<Rightarrow> f cb env total_size st') = Some r"
  show "\<exists>n. r = mmap_passes cb env total_size n st \<and> mmap_pass cb env total_size r = None"
  proof (cases "mmap_pass cb env total_size st")
    case None
    with eq have "r = mmap_passes cb env total_size 0 st" by simp
    with None eq show ?thesis by (intro exI [of _ 0]) simp
  next
    case (Some st')
    with eq have "f cb env total_size st' = Some r" by simp
    from IH [OF this] obtain n
      where "r = mmap_passes cb env total_size n st'" "mmap_pass cb env total_size r = None"
      by auto
    with Some have "r = mmap_passes cb env total_size (Suc n) st" by simp
    with \<open>mmap_pass cb env total_size r = None\<close> show ?thesis by blast
  qed
qed

lemma streaming_loop_returns:
  assumes ret: "streaming_loop cb env st = Some r"
  shows "\<exists>n. r = streaming_passes cb env n st \<and> streaming_pass cb env r = None"
proof (rule streaming_loop.raw_induct
    [where P = "\<lambda>cb env st r.
       \<exists>n. r = streaming_passes cb env n st \<and> streaming_pass cb env r = None",
     OF _ ret])
  fix f cb env st r
  assume IH: "\<And>cb env st r. f cb env st = Some r \<Longrightarrow>
       \<exists>n. r = streaming_passes cb env n st \<and> streaming_pass cb env r = None"
    and eq: "(case streaming_pass cb env st of None \<Rightarrow> Some st
              | Some st' \<Rightarrow> f cb env st') = Some r"
  show "\<exists>n. r = streaming_passes cb env n st \<and> streaming_pass cb env r = None"
  proof (cases "streaming_pass cb env st")
    case None
    with eq have "r = streaming_passes cb env 0 st" by simp
    with None eq show ?thesis by (intro exI [of _ 0]) simp
  next
    case (Some st')
    with eq have "f cb env st' = Some r" by simp
    from IH [OF this] obtain n
      where "r = streaming_passes cb env n st'" "streaming_pass cb env r = None"
      by auto
    with Some have "r = streaming_passes cb env (Suc n) st" by simp
    with \<open>streaming_pass cb env r = None\<close> show ?thesis by blast
  qed
qed

text \<open>The transfer of a body that arrives in one read of as many bytes as announced.\<close>

lemma one_read_transfer:
  assumes "0 < total_size" and "reads env 0 = Chunk (nat total_size)"
  shows "mmap_loop False env total_size (0, 0, 0, msgs)
           = Some (Suc 0, total_size, total_size, msgs)"
proof -
  from assms
  have one: "mmap_passes False env total_size (Suc 0) (0, 0, 0, msgs)
               = (Suc 0, total_size, total_size, msgs)"
    by (simp add: mmap_pass_def progress_block_def)
  have "mmap_pass False env total_size (Suc 0, total_size, total_size, msgs) = None"
    by (simp add: mmap_pass_def)
  with one mmap_loop_passes [of False env total_size "Suc 0" "(0, 0, 0, msgs)"]
  show ?thesis by simp
qed

section \<open>Properties of the availability gate\<close>

text \<open>
  Claim C6. The gate answers true exactly when the path \<^verbatim>\<open>bin/ffmpeg.exe\<close> (on Windows)
  or \<^verbatim>\<open>bin/ffmpeg\<close> (elsewhere) below the install folder leads to a regular file. It is a
  function of the platform name and the file system alone, and its only result is the
  boolean: it changes no state and reads nothing of the network.
\<close>

theorem gate_iff_regular_file:
  "is_ffmpeg_available system s \<longleftrightarrow>
     (\<exists>sz. fs_lookup s [''bin'', if system = ''Windows'' then ''ffmpeg.exe'' else ''ffmpeg'']
             = Some (File sz))"
proof -
  have isfile: "os_path_isfile s p \<longleftrightarrow> (\<exists>sz. fs_lookup s p = Some (File sz))" for p
    by (simp add: os_path_isfile_def split: option.split node.split)
  have "os_path_isfile s p \<Longrightarrow> os_path_exists s p" for p
    by (auto simp: isfile os_path_exists_def)
  then show ?thesis
    by (auto simp: is_ffmpeg_available_def get_ffmpeg_executable_def Let_def isfile)
qed

theorem gate_iff_regular_file_witness:
  "is_ffmpeg_available ''Windows'' installed_fs
   \<and> \<not> is_ffmpeg_available ''Windows'' empty_fs
   \<and> \<not> is_ffmpeg_available ''Linux'' installed_fs"
  using gate_iff_regular_file [of "''Windows''" installed_fs]
    gate_iff_regular_file [of "''Windows''" empty_fs]
    gate_iff_regular_file [of "''Linux''" installed_fs]
  by (simp add: installed_fs_def empty_fs_def fs_lookup_def)

section \<open>Properties of the strategy probe\<close>

lemma find_eq_None: "find P xs = None \<longleftrightarrow> (\<forall>x \<in> set xs. \<not> P x)"
  by (induction xs) auto

text \<open>
  Claim C8. \<^verbatim>\<open>get_aria2_path\<close> returns \<open>None\<close> exactly when every probe fails: no bundled
  copy, no copy under the local name, no return code 0 from the version call on the
  search path, and none of the four common paths. That \<open>None\<close> is no error:
  \<^verbatim>\<open>download_with_aria2\<close> then does what the built-in fetch
  \<^verbatim>\<open>download_with_requests_simple\<close> does, from the same state.
\<close>

theorem probe_none_falls_back:
  "(get_aria2_path h = None \<longleftrightarrow>
      \<not> host_path_exists h (resource_path h (aria2c_name h))
      \<and> \<not> host_path_exists h (aria2c_name h)
      \<and> aria2c_version h \<noteq> Some 0
      \<and> (\<forall>p \<in> set common_paths. \<not> host_path_exists h p))
   \<and> (get_aria2_path h = None \<longrightarrow>
        download_with_aria2 cb system h net net2 s
          = download_with_requests_simple cb system net2 s [])"
  by (auto simp: get_aria2_path_def download_with_aria2_def Let_def find_eq_None)

theorem probe_none_falls_back_witness:
  "get_aria2_path bare_host = None
   \<and> download_with_aria2 False ''Linux'' bare_host (\<lambda>url. no_server) (\<lambda>url. no_server) empty_fs
       = download_with_requests_simple False ''Linux'' (\<lambda>url. no_server) empty_fs []
   \<and> download_with_requests_simple False ''Linux'' (\<lambda>url. no_server) empty_fs []
       = Some (False, empty_fs, [])"
  using probe_none_falls_back
    [of bare_host False "''Linux''" "\<lambda>url. no_server" "\<lambda>url. no_server" empty_fs]
  by (simp add: bare_host_def common_paths_def download_with_requests_simple_def
        get_ffmpeg_download_urls_def simple_attempt_def no_server_def mirror_failed_def
        os_path_exists_def fs_lookup_def empty_fs_def)

section \<open>Properties of the parallel range fetcher\<close>

text \<open>
  Claim C1. The claim asks that a run in which a segment request raises never ends in
  success for that mirror. At the input \<open>first_segment_lost\<close> the request for the first
  of the two segments raises, and the attempt installs and the function returns
  \<open>True\<close>: the file was pre-allocated at its full length, so the check
  \<^verbatim>\<open>actual_size == total_size\<close> under the comment \<^verbatim>\<open># Verify file size\<close> holds whether
  or not a segment is missing.
\<close>

theorem partial_file_accepted:
  "chunk_ranges 2101248 = [(0, 2097151), (2097152, 2101247)]
   \<and> chunk_fetch first_segment_lost 0 2097151 = None
   \<and> fst (ultra_attempt True first_segment_lost empty_fs []) = Installed
   \<and> map_option fst
        (download_with_ultra_speed True ''Windows'' (\<lambda>url. first_segment_lost)
           (\<lambda>url. no_server) empty_fs) = Some True"
  by (simp add: chunk_ranges_eval ultra_eval fs_eval install_eval first_segment_lost_def
        no_server_def download_with_ultra_speed_def get_ffmpeg_download_urls_def
        progress_block_def)

section \<open>Properties of the pre-allocation\<close>

lemma seek_and_write_Done:
  "seek_and_write env n = Done \<longleftrightarrow> 1 \<le> n \<and> n < 2 ^ 63 \<and> \<not> file_refused env n"
  by (auto simp: seek_and_write_def)

lemma preallocate_fst: "fst (preallocate env n s) = seek_and_write env n"
  by (simp add: preallocate_def split: outcome.split)

lemma extract_all_error:
  "extract_all env s = Inl e \<Longrightarrow> e \<in> {BadZipFile, NotADirectoryError, FileNotFoundError}"
  by (auto simp: extract_all_def split: option.splits node.splits if_splits)

lemma move_bin_error: "move_bin listing s = (Raises e, s') \<Longrightarrow> e = NotADirectoryError"
  by (auto simp: move_bin_def split: list.splits option.splits node.splits prod.splits)

lemma ultra_install_result:
  assumes "ultra_install env s = (r, s')"
  shows "r \<noteq> Skipped \<and> r \<noteq> Failed OSError \<and> r \<noteq> Failed ValueError"
proof (cases "extract_all env s")
  case (Inl e)
  with assms extract_all_error [OF Inl] show ?thesis
    by (auto simp: ultra_install_def)
next
  case (Inr a)
  obtain listing s1 where a: "a = (listing, s1)" by (cases a)
  obtain o1 s2 where mb: "move_bin listing s1 = (o1, s2)" by (cases "move_bin listing s1")
  show ?thesis
  proof (cases o1)
    case (Raises e)
    with mb move_bin_error [of listing s1 e s2] assms Inr a show ?thesis
      by (auto simp: ultra_install_def)
  next
    case Done
    with mb assms Inr a show ?thesis by (auto simp: ultra_install_def)
  qed
qed

lemma ultra_attempt_past_preallocation:
  assumes "\<not> urlopen_raises env" and "content_length env = Length n" and "n \<noteq> 0"
    and "seek_and_write env n = Done"
  shows "fst (ultra_attempt cb env s msgs) \<notin> {Skipped, Failed OSError, Failed ValueError}"
proof -
  obtain s1 where pre: "preallocate env n s = (Done, s1)"
    using assms(4) by (simp add: preallocate_def)
  show ?thesis
    using assms(1-3) pre
    by (auto simp: ultra_attempt_def Let_def
          split: option.splits prod.splits dest: ultra_install_result)
qed

text \<open>
  Claim C9, as stated, fails: a mirror that sends \<^verbatim>\<open>Content-Length: -5\<close> is not skipped,
  the pre-allocation runs \<^verbatim>\<open>seek(-6)\<close>, which raises, and the handler of the iteration
  gives the mirror up.
\<close>

theorem negative_length_reaches_seek:
  "parse_content_length (content_length negative_length) = Some (- 5)
   \<and> fst (preallocate negative_length (- 5) empty_fs) = Raises OSError
   \<and> fst (ultra_attempt True negative_length empty_fs []) = Failed OSError"
  by (simp add: ultra_eval negative_length_def no_server_def)

text \<open>
  Claim C9, amended. A mirror is skipped exactly when the first request raises or the
  header is absent, unreadable or 0, and a skipped mirror leaves the state and the
  messages as they were. For every other header the pre-allocation runs. It succeeds
  exactly when the length is at least 1, below \<open>2 ^ 63\<close> and not refused by the operating
  system; for a negative length it raises \<^verbatim>\<open>OSError\<close>. When it raises, the attempt ends
  there with that error and the state the failed pre-allocation left. Every attempt that
  gets past the pre-allocation, so every attempt that fetches segments, has a length of
  at least 1.
\<close>

theorem zero_length_skipped:
  "(fst (ultra_attempt cb env s msgs) = Skipped
      \<longleftrightarrow> urlopen_raises env \<or> content_length env = Absent
          \<or> content_length env = Malformed \<or> content_length env = Length 0)
   \<and> (fst (ultra_attempt cb env s msgs) = Skipped
        \<longrightarrow> ultra_attempt cb env s msgs = (Skipped, s, msgs))
   \<and> (fst (preallocate env n s) = Done \<longleftrightarrow> 1 \<le> n \<and> n < 2 ^ 63 \<and> \<not> file_refused env n)
   \<and> (n < 0 \<longrightarrow> fst (preallocate env n s) = Raises OSError)
   \<and> (\<not> urlopen_raises env \<and> content_length env = Length n \<and> n \<noteq> 0
        \<and> fst (preallocate env n s) = Raises e
        \<longrightarrow> ultra_attempt cb env s msgs = (Failed e, snd (preallocate env n s), msgs))
   \<and> (fst (ultra_attempt cb env s msgs) \<notin> {Skipped, Failed OSError, Failed ValueError}
        \<longleftrightarrow> \<not> urlopen_raises env
            \<and> (\<exists>k. content_length env = Length k \<and> 1 \<le> k \<and> fst (preallocate env k s) = Done))"
proof (intro conjI)
  show skip: "fst (ultra_attempt cb env s msgs) = Skipped
      \<longleftrightarrow> urlopen_raises env \<or> content_length env = Absent
          \<or> content_length env = Malformed \<or> content_length env = Length 0"
  proof (cases "urlopen_raises env")
    case True
    then show ?thesis by (simp add: ultra_attempt_def)
  next
    case False
    show ?thesis
    proof (cases "content_length env")
      case Absent
      with False show ?thesis by (simp add: ultra_attempt_def)
    next
      case Malformed
      with False show ?thesis by (simp add: ultra_attempt_def)
    next
      case (Length k)
      show ?thesis
      proof (cases "k = 0")
        case True
        with False Length show ?thesis by (simp add: ultra_attempt_def)
      next
        case nz: False
        show ?thesis
        proof (cases "seek_and_write env k")
          case (Raises e')
          with False Length nz show ?thesis
            by (simp add: ultra_attempt_def preallocate_def)
        next
          case Done
          from ultra_attempt_past_preallocation [OF False Length nz Done, of cb s msgs]
            False Length nz
          show ?thesis by simp
        qed
      qed
    qed
  qed
  show "fst (ultra_attempt cb env s msgs) = Skipped
        \<longrightarrow> ultra_attempt cb env s msgs = (Skipped, s, msgs)"
  proof
    assume "fst (ultra_attempt cb env s msgs) = Skipped"
    with skip have "urlopen_raises env \<or> content_length env = Absent
          \<or> content_length env = Malformed \<or> content_length env = Length 0"
      by simp
    then show "ultra_attempt cb env s msgs = (Skipped, s, msgs)"
      by (auto simp: ultra_attempt_def)
  qed
  show "fst (preallocate env n s) = Done \<longleftrightarrow> 1 \<le> n \<and> n < 2 ^ 63 \<and> \<not> file_refused env n"
    by (simp only: preallocate_fst seek_and_write_Done)
  show "n < 0 \<longrightarrow> fst (preallocate env n s) = Raises OSError"
    by (simp add: preallocate_fst seek_and_write_def)
  show "\<not> urlopen_raises env \<and> content_length env = Length n \<and> n \<noteq> 0
        \<and> fst (preallocate env n s) = Raises e
        \<longrightarrow> ultra_attempt cb env s msgs = (Failed e, snd (preallocate env n s), msgs)"
    by (cases "preallocate env n s") (simp add: ultra_attempt_def Let_def)
  show "fst (ultra_attempt cb env s msgs) \<notin> {Skipped, Failed OSError, Failed ValueError}
        \<longleftrightarrow> \<not> urlopen_raises env
            \<and> (\<exists>k. content_length env = Length k \<and> 1 \<le> k \<and> fst (preallocate env k s) = Done)"
  proof (cases "urlopen_raises env")
    case True
    then show ?thesis by (simp add: ultra_attempt_def)
  next
    case False
    show ?thesis
    proof (cases "content_length env")
      case Absent
      with False show ?thesis by (simp add: ultra_attempt_def)
    next
      case Malformed
      with False show ?thesis by (simp add: ultra_attempt_def)
    next
      case (Length k)
      show ?thesis
      proof (cases "k = 0")
        case True
        with False Length show ?thesis by (simp add: ultra_attempt_def)
      next
        case nz: False
        show ?thesis
        proof (cases "seek_and_write env k")
          case (Raises e')
          then have "e' = OSError \<or> e' = ValueError"
            by (auto simp: seek_and_write_def split: if_splits)
          with Raises False Length nz show ?thesis
            by (auto simp: ultra_attempt_def preallocate_def)
        next
          case Done
          from ultra_attempt_past_preallocation [OF False Length nz Done, of cb s msgs]
            False Length nz Done
          show ?thesis by (simp add: preallocate_fst seek_and_write_Done)
        qed
      qed
    qed
  qed
qed

lemma range_fetch_runs:
  "fst (ultra_attempt True first_segment_lost empty_fs []) = Installed"
  by (simp add: chunk_ranges_eval ultra_eval fs_eval install_eval first_segment_lost_def
        no_server_def progress_block_def)

theorem zero_length_skipped_witness:
  "fst (ultra_attempt True no_length empty_fs []) = Skipped
   \<and> content_length no_length = Absent
   \<and> ultra_attempt True no_length empty_fs [] = (Skipped, empty_fs, [])
   \<and> fst (preallocate first_segment_lost 2101248 empty_fs) = Done
   \<and> fst (preallocate negative_length (- 5) empty_fs) = Raises OSError
   \<and> \<not> urlopen_raises disk_full \<and> content_length disk_full = Length 3145728
   \<and> fst (preallocate disk_full 3145728 empty_fs) = Raises OSError
   \<and> ultra_attempt True disk_full empty_fs []
       = (Failed OSError, snd (preallocate disk_full 3145728 empty_fs), [])
   \<and> fst (ultra_attempt True oversized_length empty_fs []) = Failed OSError
   \<and> fst (ultra_attempt True first_segment_lost empty_fs []) = Installed
   \<and> (\<exists>k. content_length first_segment_lost = Length k \<and> 1 \<le> k
            \<and> fst (preallocate first_segment_lost k empty_fs) = Done)"
proof -
  have absent: "urlopen_raises no_length \<or> content_length no_length = Absent
          \<or> content_length no_length = Malformed \<or> content_length no_length = Length 0"
    by (simp add: no_length_def no_server_def)
  note none = zero_length_skipped [of True no_length empty_fs "[]" 0 OSError]
  from none absent have skipped: "fst (ultra_attempt True no_length empty_fs []) = Skipped"
    by blast
  with none have unchanged: "ultra_attempt True no_length empty_fs [] = (Skipped, empty_fs, [])"
    by blast
  have fits: "(1::int) \<le> 2101248 \<and> (2101248::int) < 2 ^ 63
                \<and> \<not> file_refused first_segment_lost 2101248"
    by (simp add: first_segment_lost_def no_server_def)
  note lost = zero_length_skipped [of True first_segment_lost empty_fs "[]" 2101248 OSError]
  from lost fits have allocated: "fst (preallocate first_segment_lost 2101248 empty_fs) = Done"
    by blast
  have neg: "(- 5 :: int) < 0" by simp
  from zero_length_skipped [of True negative_length empty_fs "[]" "- 5" OSError] neg
  have negative: "fst (preallocate negative_length (- 5) empty_fs) = Raises OSError"
    by blast
  have full: "\<not> urlopen_raises disk_full" "content_length disk_full = Length 3145728"
    "(3145728::int) \<noteq> 0" "\<not> (1 \<le> (3145728::int) \<and> (3145728::int) < 2 ^ 63
                           \<and> \<not> file_refused disk_full 3145728)"
    by (simp_all add: disk_full_def no_server_def)
  have refused: "fst (preallocate disk_full 3145728 empty_fs) = Raises OSError"
    by (simp add: preallocate_fst seek_and_write_def disk_full_def no_server_def)
  from zero_length_skipped [of True disk_full empty_fs "[]" 3145728 OSError] full refused
  have given_up: "ultra_attempt True disk_full empty_fs []
       = (Failed OSError, snd (preallocate disk_full 3145728 empty_fs), [])"
    by blast
  have over: "fst (ultra_attempt True oversized_length empty_fs []) = Failed OSError"
    by (simp add: ultra_attempt_def preallocate_def seek_and_write_def oversized_length_def
          no_server_def Let_def)
  have installed: "fst (ultra_attempt True first_segment_lost empty_fs []) = Installed"
    by (rule range_fetch_runs)
  then have "fst (ultra_attempt True first_segment_lost empty_fs [])
               \<notin> {Skipped, Failed OSError, Failed ValueError}"
    by simp
  with lost
  have ex: "\<exists>k. content_length first_segment_lost = Length k \<and> 1 \<le> k
            \<and> fst (preallocate first_segment_lost k empty_fs) = Done"
    by blast
  have "content_length no_length = Absent" by (simp add: no_length_def no_server_def)
  with skipped unchanged allocated negative full(1,2) refused given_up over installed ex
  show ?thesis by (intro conjI)
qed

section \<open>Properties of the installer\<close>

lemma archive_without_bin_fields:
  "urlopen_raises archive_without_bin = False"
  "content_length archive_without_bin = Length 1000"
  "file_refused archive_without_bin n = False" "map_refused archive_without_bin n = False"
  "reads archive_without_bin k = Chunk 1000" "move_raises archive_without_bin = False"
  "temp_name archive_without_bin = ''tmpa1b2c3''"
  "timeout_after archive_without_bin = None"
  "chunk_fetch archive_without_bin start stop = Some (nat (stop - start + 1))"
  "completion_order archive_without_bin ranges = ranges"
  "extraction archive_without_bin
     = Some [(''ffmpeg-7.1-essentials_build'',
              Dir [(''README.txt'', File 120), (''doc'', Dir [])])]"
  by (simp_all add: archive_without_bin_def no_server_def)

lemma archive_without_bin_transfer:
  "mmap_loop False archive_without_bin 1000 (0, 0, 0, []) = Some (Suc 0, 1000, 1000, [])"
  by (rule one_read_transfer) (simp_all add: archive_without_bin_fields)

text \<open>
  Claim C4. The claim asks that an archive whose top-level folder has no \<^verbatim>\<open>bin\<close> folder
  never ends in success. At the input \<open>archive_without_bin\<close> both installers skip the
  move, since \<^verbatim>\<open>if os.path.exists(bin_source)\<close> has no \<^verbatim>\<open>else\<close>, and return \<open>True\<close>;
  no \<^verbatim>\<open>bin\<close> folder exists afterwards.
\<close>

theorem missing_bin_reports_success:
  "map_option fst
     (download_with_requests_simple False ''Windows'' (\<lambda>url. archive_without_bin) empty_fs [])
     = Some True
   \<and> map_option (\<lambda>(r, s', msgs). os_path_exists s' [''bin''])
     (download_with_requests_simple False ''Windows'' (\<lambda>url. archive_without_bin) empty_fs [])
     = Some False
   \<and> map_option fst
     (download_with_ultra_speed False ''Windows'' (\<lambda>url. archive_without_bin)
        (\<lambda>url. no_server) empty_fs) = Some True"
  by (simp add: chunk_ranges_eval ultra_eval simple_eval fs_eval install_eval
        archive_without_bin_fields archive_without_bin_transfer download_with_ultra_speed_def
        get_ffmpeg_download_urls_def progress_block_def megabytes_figure)

section \<open>Properties of the progress percentage\<close>

lemma progress_message_ok:
  assumes "0 < total_size" and "0 \<le> bytes_so_far" and "bytes_so_far \<le> total_size"
    and "progress_message bytes_so_far total_size = Some m"
  shows "percent_ok m"
proof -
  from progress_percent_bounds [OF assms(1-3)] obtain p
    where "progress_percent bytes_so_far total_size = Some p" "0 \<le> p" "p \<le> 100" by auto
  with assms(4) show ?thesis
    by (auto simp: progress_message_def percent_ok_def split: if_splits)
qed

lemma progress_block_ok:
  assumes "0 < total_size" and "0 \<le> bytes_so_far" and "bytes_so_far \<le> total_size"
    and "\<forall>m \<in> set msgs. percent_ok m"
  shows "\<forall>m \<in> set (progress_block cb env k bytes_so_far total_size msgs). percent_ok m"
proof (cases "progress_message bytes_so_far total_size")
  case None
  with assms(4) show ?thesis by (simp add: progress_block_def)
next
  case (Some m)
  from progress_message_ok [OF assms(1-3) Some] Some assms(4) show ?thesis
    by (simp add: progress_block_def)
qed

text \<open>
  What every pass of the loop over the mapped file keeps: the bytes counted lie between 0
  and the total, the position equals them, and every message sent is in order.
\<close>

lemma mmap_pass_invariant:
  assumes pos: "0 < total_size"
    and pass: "mmap_pass cb env total_size (k, downloaded, position, msgs)
                 = Some (k', downloaded', position', msgs')"
    and d: "0 \<le> downloaded" "position = downloaded" "downloaded \<le> total_size"
    and ok: "\<forall>m \<in> set msgs. percent_ok m"
  shows "0 \<le> downloaded' \<and> position' = downloaded' \<and> downloaded' \<le> total_size
         \<and> (\<forall>m \<in> set msgs'. percent_ok m)"
proof (cases "reads env k")
  case ReadError
  with pass d ok show ?thesis
    by (auto simp: mmap_pass_def split: if_splits)
next
  case (Chunk bytes_read)
  show ?thesis
  proof (cases "total_size < position + int bytes_read")
    case True
    with pass d ok Chunk show ?thesis
      by (auto simp: mmap_pass_def split: if_splits)
  next
    case False
    let ?d = "downloaded + int bytes_read"
    from False d have fits: "0 \<le> ?d" "?d \<le> total_size" by simp_all
    from progress_block_ok [OF pos fits ok]
    have "\<forall>m \<in> set (progress_block cb env k ?d total_size msgs). percent_ok m" .
    with pass Chunk False fits d show ?thesis
      by (auto simp: mmap_pass_def split: if_splits)
  qed
qed

lemma mmap_passes_invariant:
  assumes pos: "0 < total_size"
  shows "0 \<le> downloaded \<Longrightarrow> position = downloaded \<Longrightarrow> downloaded \<le> total_size \<Longrightarrow>
         \<forall>m \<in> set msgs. percent_ok m \<Longrightarrow>
         mmap_passes cb env total_size n (k, downloaded, position, msgs)
           = (k', downloaded', position', msgs') \<Longrightarrow>
         0 \<le> downloaded' \<and> position' = downloaded' \<and> downloaded' \<le> total_size
         \<and> (\<forall>m \<in> set msgs'. percent_ok m)"
proof (induction n arbitrary: k downloaded position msgs)
  case 0
  then show ?case by simp
next
  case (Suc n)
  show ?case
  proof (cases "mmap_pass cb env total_size (k, downloaded, position, msgs)")
    case None
    with Suc.prems show ?thesis by simp
  next
    case (Some st')
    obtain k1 d1 p1 msgs1 where st': "st' = (k1, d1, p1, msgs1)" by (cases st')
    from mmap_pass_invariant [OF pos Some [unfolded st'] Suc.prems(1-4)]
    have inv: "0 \<le> d1" "p1 = d1" "d1 \<le> total_size" "\<forall>m \<in> set msgs1. percent_ok m"
      by simp_all
    from Suc.prems(5) Some st'
    have "mmap_passes cb env total_size n (k1, d1, p1, msgs1)
            = (k', downloaded', position', msgs')"
      by simp
    from Suc.IH [OF inv this] show ?thesis .
  qed
qed

lemma mmap_passes_percent_ok:
  assumes "0 < total_size" and "\<forall>m \<in> set msgs. percent_ok m"
  shows "\<forall>m \<in> set (snd (snd (snd (mmap_passes cb env total_size n (0, 0, 0, msgs))))).
           percent_ok m"
proof -
  obtain k' d' p' msgs'
    where eq: "mmap_passes cb env total_size n (0, 0, 0, msgs) = (k', d', p', msgs')"
    by (cases "mmap_passes cb env total_size n (0, 0, 0, msgs)")
  from assms(1) have "(0::int) \<le> total_size" by simp
  from mmap_passes_invariant [OF assms(1) _ _ this assms(2) eq] eq
  show ?thesis by simp
qed

lemma as_completed_loop_ok:
  "0 < total_size \<Longrightarrow> 0 \<le> completed_size \<Longrightarrow> \<forall>r \<in> set results. 0 \<le> r \<Longrightarrow>
   completed_size + sum_list results \<le> total_size \<Longrightarrow> \<forall>m \<in> set msgs. percent_ok m \<Longrightarrow>
   \<forall>m \<in> set (snd (as_completed_loop cb env total_size k results completed_size msgs)). percent_ok m"
proof (induction results arbitrary: k completed_size msgs)
  case Nil
  then show ?case by simp
next
  case (Cons r results)
  let ?c = "completed_size + r"
  from Cons.prems have c: "0 \<le> ?c" "?c \<le> total_size"
    by (auto intro: order_trans [OF _ Cons.prems(4)] simp: sum_list_nonneg)
  from progress_block_ok [OF Cons.prems(1) c Cons.prems(5)]
  have "\<forall>m \<in> set (progress_block cb env k ?c total_size msgs). percent_ok m" .
  moreover from Cons.prems have "?c + sum_list results \<le> total_size" "\<forall>r \<in> set results. 0 \<le> r"
    by (auto simp: add.assoc)
  ultimately show ?case
    using Cons.IH [of ?c] Cons.prems(1) c by simp
qed

lemma chunk_ranges_from_lengths:
  "0 < chunk_size \<Longrightarrow> i < total_size \<Longrightarrow>
     sum_list (map (\<lambda>(s, e). e - s + 1) (chunk_ranges_from i total_size chunk_size)) = total_size - i"
proof (induction i total_size chunk_size rule: chunk_ranges_from.induct)
  case (1 i total_size chunk_size)
  note unf = chunk_ranges_from_unfold [OF "1.prems"]
  show ?case
  proof (cases "i + chunk_size < total_size")
    case True
    with "1.IH" "1.prems"
    have "sum_list (map (\<lambda>(s, e). e - s + 1) (chunk_ranges_from (i + chunk_size) total_size chunk_size)) = total_size - (i + chunk_size)"
      by simp
    with True show ?thesis by (simp add: unf)
  next
    case False
    then have "chunk_ranges_from (i + chunk_size) total_size chunk_size = []"
      by (intro chunk_ranges_from_done) simp
    with False show ?thesis by (simp add: unf)
  qed
qed

lemma chunk_ranges_from_ordered:
  "0 < chunk_size \<Longrightarrow> (s, e) \<in> set (chunk_ranges_from i total_size chunk_size) \<Longrightarrow> s \<le> e"
proof (induction i total_size chunk_size rule: chunk_ranges_from.induct)
  case (1 i total_size chunk_size)
  show ?case
  proof (cases "i < total_size")
    case True
    note unf = chunk_ranges_from_unfold [OF "1.prems"(1) True]
    from "1.prems"(2) consider "(s, e) = (i, min (i + chunk_size - 1) (total_size - 1))"
      | "(s, e) \<in> set (chunk_ranges_from (i + chunk_size) total_size chunk_size)"
      by (auto simp: unf)
    then show ?thesis
    proof cases
      case 1
      with True "1.prems"(1) show ?thesis by auto
    next
      case 2
      with "1.IH" True "1.prems"(1) show ?thesis by simp
    qed
  next
    case False
    with "1.prems"(2) show ?thesis by (simp add: chunk_ranges_from_done)
  qed
qed

lemma chunk_ranges_lengths:
  "0 < total_size \<Longrightarrow> sum_list (map (\<lambda>(s, e). e - s + 1) (chunk_ranges total_size)) = total_size"
  unfolding chunk_ranges_def using chunk_ranges_from_lengths [OF chunk_size_pos, of 0 total_size] by simp

lemma download_chunk_nonneg: "0 \<le> download_chunk env r"
  by (simp add: download_chunk_def split: option.split)

lemma sum_list_map_le:
  "(\<And>x. x \<in> set xs \<Longrightarrow> f x \<le> (g x :: int)) \<Longrightarrow> sum_list (map f xs) \<le> sum_list (map g xs)"
  by (induction xs) (auto intro: add_mono)

lemma results_within_total:
  assumes pos: "0 < total_size"
    and perm: "mset (completion_order env (chunk_ranges total_size)) = mset (chunk_ranges total_size)"
    and honest: "\<forall>(s, e) \<in> set (chunk_ranges total_size). \<forall>n. chunk_fetch env s e = Some n \<longrightarrow> int n \<le> e - s + 1"
  shows "sum_list (map (download_chunk env) (completion_order env (chunk_ranges total_size))) \<le> total_size"
proof -
  let ?rs = "chunk_ranges total_size"
  have "sum_list (map (download_chunk env) (completion_order env ?rs))
        = sum_mset (image_mset (download_chunk env) (mset (completion_order env ?rs)))"
    by (simp add: sum_mset_sum_list [symmetric])
  also have "\<dots> = sum_list (map (download_chunk env) ?rs)"
    by (simp add: perm sum_mset_sum_list [symmetric])
  also have "\<dots> \<le> sum_list (map (\<lambda>(s, e). e - s + 1) ?rs)"
  proof (rule sum_list_map_le)
    fix x assume x: "x \<in> set ?rs"
    obtain s e where se: "x = (s, e)" by (cases x)
    from x se have "(s, e) \<in> set (chunk_ranges_from 0 total_size
                        (max CHUNK_SIZE (total_size div MAX_CONNECTIONS)))"
      by (simp add: chunk_ranges_def)
    with chunk_size_pos have "s \<le> e"
      by (rule chunk_ranges_from_ordered)
    with x se honest show "download_chunk env x \<le> (case x of (s, e) \<Rightarrow> e - s + 1)"
      by (auto simp: download_chunk_def split: option.split)
  qed
  also have "\<dots> = total_size" using pos by (rule chunk_ranges_lengths)
  finally show ?thesis .
qed

lemma sum_list_take_le:
  "\<forall>r \<in> set xs. (0::int) \<le> r \<Longrightarrow> sum_list (take k xs) \<le> sum_list xs"
proof (induction xs arbitrary: k)
  case Nil
  then show ?case by simp
next
  case (Cons x xs)
  then show ?case by (cases k) (auto simp: sum_list_nonneg intro: add_increasing)
qed

lemma ultra_attempt_percent_ok:
  assumes len: "content_length env = Length total_size"
    and perm: "mset (completion_order env (chunk_ranges total_size)) = mset (chunk_ranges total_size)"
    and honest: "\<forall>(s, e) \<in> set (chunk_ranges total_size).
                   \<forall>n. chunk_fetch env s e = Some n \<longrightarrow> int n \<le> e - s + 1"
    and ok: "\<forall>m \<in> set msgs. percent_ok m"
  shows "\<forall>m \<in> set (snd (snd (ultra_attempt cb env s msgs))). percent_ok m"
proof (cases "urlopen_raises env \<or> total_size = 0")
  case True
  with len ok show ?thesis by (auto simp: ultra_attempt_def)
next
  case False
  then have open_ok: "\<not> urlopen_raises env" and nz: "total_size \<noteq> 0" by simp_all
  show ?thesis
  proof (cases "seek_and_write env total_size")
    case (Raises e)
    with open_ok nz len ok show ?thesis
      by (simp add: ultra_attempt_def preallocate_def)
  next
    case Done
    then have pos: "0 < total_size" by (simp add: seek_and_write_Done)
    let ?results = "map (download_chunk env) (completion_order env (chunk_ranges total_size))"
    have nonneg: "\<forall>r \<in> set ?results. 0 \<le> r"
      by (auto simp: download_chunk_nonneg)
    from pos perm honest have total: "sum_list ?results \<le> total_size"
      by (rule results_within_total)
    have whole: "\<forall>m \<in> set (snd (as_completed_loop cb env total_size 0 ?results 0 msgs)). percent_ok m"
      using pos nonneg total ok by (intro as_completed_loop_ok) simp_all
    have part: "\<forall>m \<in> set (snd (as_completed_loop cb env total_size 0 (take k ?results) 0 msgs)).
                  percent_ok m" for k
    proof (intro as_completed_loop_ok)
      from nonneg show "\<forall>r \<in> set (take k ?results). 0 \<le> r"
        by (meson in_set_takeD)
      from sum_list_take_le [OF nonneg, of k] total
      show "0 + sum_list (take k ?results) \<le> total_size" by simp
    qed (use pos ok in simp_all)
    obtain s1 where pre: "preallocate env total_size s = (Done, s1)"
      using Done by (simp add: preallocate_def)
    show ?thesis
    proof (cases "timeout_after env")
      case None
      with open_ok nz len pre whole show ?thesis
        by (auto simp: ultra_attempt_def Let_def split: prod.splits)
    next
      case (Some k)
      with open_ok nz len pre whole part [of k] show ?thesis
        by (auto simp: ultra_attempt_def Let_def split: prod.splits)
    qed
  qed
qed

lemma range_ignored_fields:
  "urlopen_raises range_ignored = False" "content_length range_ignored = Length 3145728"
  "file_refused range_ignored n = False" "timeout_after range_ignored = None"
  "tick range_ignored k = True" "chunk_fetch range_ignored start stop = Some 3145728"
  "completion_order range_ignored ranges = ranges" "extraction range_ignored = None"
  by (simp_all add: range_ignored_def no_server_def)

text \<open>
  Claim C7, as stated, fails: nothing clamps the percentage. At the input
  \<open>range_ignored\<close> each of the two ranged requests returns the whole body of 3 MiB, the
  completed size reaches twice the total and the second message shows 200 percent.
\<close>

theorem percentage_above_100:
  "chunk_ranges 3145728 = [(0, 2097151), (2097152, 3145727)]
   \<and> progress_percent 6291456 3145728 = Some 200
   \<and> snd (snd (ultra_attempt True range_ignored empty_fs []))
       = [Progress 100 3145728 3145728, Progress 200 6291456 3145728]"
  by (simp add: chunk_ranges_eval ultra_eval fs_eval install_eval range_ignored_fields
        float_eval)

text \<open>
  Claim C7, amended. For a total above 0 the percentage is computed without an error and
  lies between 0 and 100 whenever the bytes so far lie between 0 and the total. The
  streaming fetcher for a known length never counts more bytes than the total: after any
  number of passes of its loop, whether or not the loop ever ends, and in the state it
  returns when it ends, every percentage sent lies between 0 and 100. So does every
  percentage the parallel fetcher has sent when its attempt on a mirror ends, in an
  install, in a failure or in the timeout, provided that each future is yielded once
  and no ranged response is longer than its range.
\<close>

theorem percent_within_bounds:
  assumes pos: "0 < total_size" and ok: "\<forall>m \<in> set msgs. percent_ok m"
  shows "(0 \<le> bytes_so_far \<and> bytes_so_far \<le> total_size
            \<longrightarrow> (\<exists>p. progress_percent bytes_so_far total_size = Some p \<and> 0 \<le> p \<and> p \<le> 100))
       \<and> (\<forall>m \<in> set (snd (snd (snd (mmap_passes cb env total_size n (0, 0, 0, msgs))))).
             percent_ok m)
       \<and> (mmap_loop cb env total_size (0, 0, 0, msgs) = Some r
            \<longrightarrow> (\<forall>m \<in> set (snd (snd (snd r))). percent_ok m))
       \<and> (content_length env = Length total_size
          \<and> mset (completion_order env (chunk_ranges total_size)) = mset (chunk_ranges total_size)
          \<and> (\<forall>(s, e) \<in> set (chunk_ranges total_size).
                \<forall>n. chunk_fetch env s e = Some n \<longrightarrow> int n \<le> e - s + 1)
            \<longrightarrow> (\<forall>m \<in> set (snd (snd (ultra_attempt cb env s msgs))). percent_ok m))"
proof (intro conjI impI)
  assume "0 \<le> bytes_so_far \<and> bytes_so_far \<le> total_size"
  with pos show "\<exists>p. progress_percent bytes_so_far total_size = Some p \<and> 0 \<le> p \<and> p \<le> 100"
    by (intro progress_percent_bounds) simp_all
next
  from pos ok
  show "\<forall>m \<in> set (snd (snd (snd (mmap_passes cb env total_size n (0, 0, 0, msgs))))).
          percent_ok m"
    by (rule mmap_passes_percent_ok)
next
  assume "mmap_loop cb env total_size (0, 0, 0, msgs) = Some r"
  from mmap_loop_returns [OF this] obtain n'
    where r: "r = mmap_passes cb env total_size n' (0, 0, 0, msgs)" by auto
  from mmap_passes_percent_ok [OF pos ok, of cb env n'] r
  show "\<forall>m \<in> set (snd (snd (snd r))). percent_ok m"
    by simp
next
  assume a: "content_length env = Length total_size
          \<and> mset (completion_order env (chunk_ranges total_size)) = mset (chunk_ranges total_size)
          \<and> (\<forall>(s, e) \<in> set (chunk_ranges total_size).
                \<forall>n. chunk_fetch env s e = Some n \<longrightarrow> int n \<le> e - s + 1)"
  then have len: "content_length env = Length total_size"
    and perm: "mset (completion_order env (chunk_ranges total_size)) = mset (chunk_ranges total_size)"
    and honest: "\<forall>(s, e) \<in> set (chunk_ranges total_size).
                \<forall>n. chunk_fetch env s e = Some n \<longrightarrow> int n \<le> e - s + 1"
    by blast+
  from len perm honest ok
  show "\<forall>m \<in> set (snd (snd (ultra_attempt cb env s msgs))). percent_ok m"
    by (rule ultra_attempt_percent_ok)
qed

lemma steady_fields:
  "urlopen_raises steady_body = False" "content_length steady_body = Length 1000"
  "file_refused steady_body n = False" "timeout_after steady_body = None"
  "reads steady_body k = Chunk 500" "tick steady_body k = True"
  "chunk_fetch steady_body start stop = Some (nat (stop - start + 1))"
  "completion_order steady_body ranges = ranges" "extraction steady_body = None"
  by (simp_all add: steady_body_def no_server_def)

lemma steady_last_message: "progress_message 1000 1000 = Some (Progress 100 1000 1000)"
proof -
  have "progress_percent 1000 1000 = Some 100"
    by (simp add: progress_percent_def int_truediv_def to_double_one to_double_numeral py_int_def)
  with megabytes_figure [of 1000] show ?thesis
    by (simp add: progress_message_def)
qed

lemma steady_mmap:
  "\<exists>p. mmap_passes True steady_body 1000 2 (0, 0, 0, [])
         = (2, 1000, 1000, [Progress p 500 1000, Progress 100 1000 1000])"
proof -
  from progress_message_sent [of 1000 500] obtain p
    where "progress_message 500 1000 = Some (Progress p 500 1000)" by auto
  then have "mmap_passes True steady_body 1000 (Suc (Suc 0)) (0, 0, 0, [])
         = (2, 1000, 1000, [Progress p 500 1000, Progress 100 1000 1000])"
    by (simp add: mmap_pass_def progress_block_def steady_fields steady_last_message)
  then show ?thesis by (auto simp: numeral_2_eq_2)
qed

lemma steady_mmap_left:
  "mmap_pass True steady_body 1000 (mmap_passes True steady_body 1000 2 (0, 0, 0, [])) = None"
  using steady_mmap by (auto simp: mmap_pass_def)

lemma steady_parallel:
  "chunk_ranges 1000 = [(0, 999)]"
  "snd (snd (ultra_attempt True steady_body empty_fs [])) = [Progress 100 1000 1000]"
  by (simp_all add: chunk_ranges_eval ultra_eval fs_eval install_eval steady_fields
        progress_block_def steady_last_message)

theorem percent_within_bounds_witness:
  "(0::int) < 1000
   \<and> (\<exists>p. progress_percent 500 1000 = Some p \<and> 0 \<le> p \<and> p \<le> 100)
   \<and> (\<exists>p. mmap_passes True steady_body 1000 2 (0, 0, 0, [])
            = (2, 1000, 1000, [Progress p 500 1000, Progress 100 1000 1000]))
   \<and> list_all percent_ok (snd (snd (snd (mmap_passes True steady_body 1000 2 (0, 0, 0, [])))))
   \<and> mmap_loop True steady_body 1000 (0, 0, 0, [])
       = Some (mmap_passes True steady_body 1000 2 (0, 0, 0, []))
   \<and> content_length steady_body = Length 1000
   \<and> mset (completion_order steady_body (chunk_ranges 1000)) = mset (chunk_ranges 1000)
   \<and> chunk_ranges 1000 = [(0, 999)] \<and> chunk_fetch steady_body 0 999 = Some 1000
   \<and> snd (snd (ultra_attempt True steady_body empty_fs [])) = [Progress 100 1000 1000]
   \<and> list_all percent_ok (snd (snd (ultra_attempt True steady_body empty_fs [])))"
proof -
  have pos: "(0::int) < 1000" by simp
  have ok: "\<forall>m \<in> set ([] :: message list). percent_ok m" by simp
  have within: "(0::int) \<le> 500 \<and> (500::int) \<le> 1000" by simp
  have len: "content_length steady_body = Length 1000"
    by (simp add: steady_fields)
  have perm: "mset (completion_order steady_body (chunk_ranges 1000)) = mset (chunk_ranges 1000)"
    by (simp add: steady_fields)
  have honest: "\<forall>(s, e) \<in> set (chunk_ranges 1000).
         \<forall>n. chunk_fetch steady_body s e = Some n \<longrightarrow> int n \<le> e - s + 1"
    by (simp add: steady_parallel(1) steady_fields)
  have returns: "mmap_loop True steady_body 1000 (0, 0, 0, [])
       = Some (mmap_passes True steady_body 1000 2 (0, 0, 0, []))"
    using steady_mmap_left by (rule mmap_loop_passes)
  note inst = percent_within_bounds [OF pos ok, where bytes_so_far = 500 and cb = True
      and env = steady_body and n = 2 and s = empty_fs
      and r = "mmap_passes True steady_body 1000 2 (0, 0, 0, [])"]
  from inst within
  have "\<exists>p. progress_percent 500 1000 = Some p \<and> 0 \<le> p \<and> p \<le> 100"
    by blast
  moreover from inst
  have "list_all percent_ok (snd (snd (snd (mmap_passes True steady_body 1000 2 (0, 0, 0, [])))))"
    unfolding list_all_iff by blast
  moreover from inst len perm honest
  have "list_all percent_ok (snd (snd (ultra_attempt True steady_body empty_fs [])))"
    unfolding list_all_iff by blast
  moreover have "chunk_fetch steady_body 0 999 = Some 1000"
    by (simp add: steady_fields)
  ultimately show ?thesis
    using pos steady_mmap returns len perm steady_parallel by (intro conjI)
qed

section \<open>Properties of the streaming fetcher\<close>

lemma streaming_pass_goes_on:
  "reads env k \<noteq> Chunk 0 \<Longrightarrow> streaming_pass cb env (k, downloaded, msgs) \<noteq> None"
  by (simp add: streaming_pass_def split: read_event.split)

text \<open>
  A body whose reads never report its end keeps the loop running: the only exit of
  \<^verbatim>\<open>while True\<close> is the \<^verbatim>\<open>break\<close> after a read of no bytes.
\<close>

lemma streaming_loop_never_left:
  assumes "\<forall>k. reads env k \<noteq> Chunk 0"
  shows "streaming_loop cb env st = None"
proof (cases "streaming_loop cb env st")
  case None
  then show ?thesis .
next
  case (Some r)
  from streaming_loop_returns [OF Some] have left: "streaming_pass cb env r = None" by auto
  obtain k downloaded msgs where "r = (k, downloaded, msgs)" by (cases r)
  with left streaming_pass_goes_on [of env k cb downloaded msgs] assms show ?thesis
    by simp
qed

lemma stalled_fields:
  "urlopen_raises stalled_body = False" "content_length stalled_body = Absent"
  "temp_name stalled_body = ''tmpa1b2c3''"
  "reads stalled_body 0 = Chunk 5" "reads stalled_body (Suc k) = ReadError"
  by (simp_all add: stalled_body_def no_server_def)

lemma stalled_never_ends: "\<forall>k. reads stalled_body k \<noteq> Chunk 0"
proof
  fix k show "reads stalled_body k \<noteq> Chunk 0"
    by (cases k) (simp_all add: stalled_fields)
qed

lemma stalled_passes:
  "streaming_passes False stalled_body n (Suc k, downloaded, msgs) = (Suc k + n, downloaded, msgs)"
  by (induction n arbitrary: k) (simp_all add: streaming_pass_def stalled_fields)

lemma stalled_counts:
  "streaming_passes False stalled_body (Suc n) (0, 0, []) = (Suc n, 5, [])"
  by (simp add: streaming_pass_def streamed_block_def stalled_fields stalled_passes)

lemma stalled_loop: "streaming_loop False stalled_body st = None"
  using stalled_never_ends by (rule streaming_loop_never_left)

text \<open>
  Claim C5. The claim asks that a read of the body that raises ends the transfer and
  that the temporary file is gone afterwards. At the input \<open>stalled_body\<close> the second
  read raises, and so does every read after it. The loop goes on: after any number of
  passes it has not been left and its count stands at the 5 bytes of the first read. So
  the loop never returns, the handler under \<^verbatim>\<open># Cleanup on error\<close> that removes the
  temporary file is never reached, and neither the attempt on the mirror nor the
  download function returns.
\<close>

theorem read_error_never_ends:
  "reads stalled_body 0 = Chunk 5
   \<and> reads stalled_body 1 = ReadError
   \<and> (\<forall>n. streaming_passes False stalled_body (Suc n) (0, 0, []) = (Suc n, 5, []))
   \<and> (\<forall>n. streaming_pass False stalled_body
              (streaming_passes False stalled_body n (0, 0, [])) \<noteq> None)
   \<and> streaming_loop False stalled_body (0, 0, []) = None
   \<and> fetch_to_temp False stalled_body 0
        (empty_fs\<lparr>tmp_files := {temp_name stalled_body}\<rparr>) [] = None
   \<and> simple_attempt False stalled_body empty_fs [] = None
   \<and> download_with_requests_simple False ''Windows'' (\<lambda>url. stalled_body) empty_fs [] = None"
proof -
  have goes_on: "streaming_pass False stalled_body
                   (streaming_passes False stalled_body n (0, 0, [])) \<noteq> None" for n
  proof -
    obtain k downloaded msgs
      where "streaming_passes False stalled_body n (0, 0, []) = (k, downloaded, msgs)"
      by (cases "streaming_passes False stalled_body n (0, 0, [])")
    with streaming_pass_goes_on [of stalled_body k False downloaded msgs] stalled_never_ends
    show ?thesis by simp
  qed
  have fetch: "fetch_to_temp False stalled_body 0 s [] = None" for s
    by (simp add: fetch_to_temp_def stalled_loop)
  have attempt: "simple_attempt False stalled_body empty_fs [] = None"
    by (simp add: simple_attempt_def stalled_fields fetch)
  have "download_with_requests_simple False ''Windows'' (\<lambda>url. stalled_body) empty_fs [] = None"
    by (simp add: download_with_requests_simple_def get_ffmpeg_download_urls_def attempt)
  with goes_on fetch attempt stalled_counts stalled_loop stalled_fields(4)
    stalled_fields(5) [of 0]
  show ?thesis by simp
qed

section \<open>Properties of the entry point\<close>

lemma flat_archive_fields:
  "urlopen_raises flat_archive = False" "content_length flat_archive = Length 1000"
  "file_refused flat_archive n = False" "map_refused flat_archive n = False"
  "reads flat_archive k = Chunk 1000" "move_raises flat_archive = False"
  "temp_name flat_archive = ''tmpa1b2c3''"
  "extraction flat_archive = Some [(''ffmpeg'', File 890)]"
  by (simp_all add: flat_archive_def no_server_def)

lemma flat_archive_transfer:
  "mmap_loop False flat_archive 1000 (0, 0, 0, []) = Some (Suc 0, 1000, 1000, [])"
  by (rule one_read_transfer) (simp_all add: flat_archive_fields)

lemma flat_run:
  "map_option (\<lambda>(r, s'). (r, is_ffmpeg_available ''Darwin'' s'))
     (ensure_ffmpeg_available ''Darwin'' None (\<lambda>url. flat_archive) empty_fs)
     = Some (True, False)"
  by (simp add: ensure_ffmpeg_available_def is_ffmpeg_available_def get_ffmpeg_executable_def
        simple_eval fs_eval install_eval flat_archive_fields flat_archive_transfer
        get_ffmpeg_download_urls_def megabytes_figure)

lemma gate_empty_fs: "\<not> is_ffmpeg_available system empty_fs"
  by (simp add: is_ffmpeg_available_def get_ffmpeg_executable_def fs_eval)

text \<open>
  An install from an archive whose first folder holds the executable as a regular file
  at \<^verbatim>\<open>bin/ffmpeg\<close>, or \<^verbatim>\<open>bin/ffmpeg.exe\<close> on Windows, leaves a state in which the gate holds.
\<close>

lemma install_opens_gate:
  assumes inst: "simple_install env s = (Installed, s')"
    and arch: "extraction env = Some listing"
    and first: "extracted_folders listing = (f, source_folder) # rest"
    and exe: "node_at source_folder (get_ffmpeg_executable system) = Some (File sz)"
  shows "is_ffmpeg_available system s'"
proof -
  let ?exe = "if system = ''Windows'' then ''ffmpeg.exe'' else ''ffmpeg''"
  from exe obtain bin_source
    where bin: "node_at source_folder [''bin''] = Some bin_source"
      and regular: "node_at bin_source [?exe] = Some (File sz)"
    by (cases source_folder)
       (auto simp: get_ffmpeg_executable_def split: option.splits if_splits)
  from first have ne: "listing \<noteq> []" by (auto simp: extracted_folders_def)
  from inst arch obtain s1
    where ext: "extract_all env s = Inr (listing, s1)"
    by (auto simp: simple_install_def extract_all_def
          split: sum.splits option.splits node.splits if_splits prod.splits)
  with inst obtain s2
    where mv: "move_bin listing s1 = (Done, s2)"
      and s': "s' = del_entry ''ffmpeg_temp.zip'' (del_entry ''temp'' s2)"
    by (auto simp: simple_install_def split: prod.splits outcome.splits)
  from mv first bin have "ffmpeg_dir s2 ''bin'' = Some bin_source"
    by (auto simp: move_bin_def put_entry_def split: option.splits node.splits)
  with s' regular have "fs_lookup s' [''bin'', ?exe] = Some (File sz)"
    by (cases bin_source) (auto simp: fs_lookup_def del_entry_def split: option.splits)
  then show ?thesis
    by (auto simp: is_ffmpeg_available_def get_ffmpeg_executable_def os_path_exists_def
          os_path_isfile_def Let_def split: if_splits)
qed

text \<open>
  Claim C2. The claim asks that the function returns \<open>True\<close> only after the gate has
  confirmed the install. At the input \<open>flat_archive\<close>, with no parent window, the gate
  fails on entry, the download returns \<open>True\<close> and is returned as it is, and the gate
  still fails in the state the function leaves behind: no gate check follows the
  download, and the install block moves nothing when the archive has no folder with a
  \<^verbatim>\<open>bin\<close> folder in it.
\<close>

theorem ensure_true_without_executable:
  "\<not> is_ffmpeg_available ''Darwin'' empty_fs
   \<and> map_option fst (ensure_ffmpeg_available ''Darwin'' None (\<lambda>url. flat_archive) empty_fs)
        = Some True
   \<and> map_option (\<lambda>(r, s'). is_ffmpeg_available ''Darwin'' s')
        (ensure_ffmpeg_available ''Darwin'' None (\<lambda>url. flat_archive) empty_fs) = Some False"
  using flat_run gate_empty_fs [of "''Darwin''"]
  by (auto simp: map_option_case split: option.splits)

end
